theory Spec2Isabelle
  imports Complex_Main "HOL-Library.Sublist"
begin

section \<open>Python strings and errors\<close>

text \<open>
  A Python \<open>str\<close> is modelled as a \<open>string\<close>: the list of its characters, taken from the
  8-bit range. Exceptions are values of \<open>py_error\<close>; a function that may raise returns
  \<open>py_error + 'a\<close> with \<open>Inl\<close> for the exception.
\<close>

datatype py_error =
  Exception | ValueError | KeyError | TypeError | AttributeError | ZeroDivisionError | IndexError

text \<open>
  JSON values as Python holds them after \<open>json.loads\<close>: a \<open>dict\<close> is an association list in
  insertion order (looked up with \<open>map_of\<close>), a finite \<open>float\<close> is its rational value.
\<close>

datatype json =
    JNull
  | JBool bool
  | JInt int
  | JFloat rat
  | JStr string
  | JList "json list"
  | JDict "(string \<times> json) list"

fun truthy :: "json \<Rightarrow> bool" where
  \<comment> \<open>\<open>bool(v)\<close>, as tested by \<open>if v:\<close>\<close>
  "truthy JNull = False"
| "truthy (JBool b) = b"
| "truthy (JInt n) = (n \<noteq> 0)"
| "truthy (JFloat r) = (r \<noteq> 0)"
| "truthy (JStr s) = (s \<noteq> [])"
| "truthy (JList xs) = (xs \<noteq> [])"
| "truthy (JDict kvs) = (kvs \<noteq> [])"

definition is_space :: "char \<Rightarrow> bool" where
  \<comment> \<open>\<open>str.isspace\<close> on one character: TAB..CR, FS..US, space, NEL and NBSP.\<close>
  "is_space c = (of_char c \<in> {9, 10, 11, 12, 13, 28, 29, 30, 31, 32, 133, 160 :: nat})"

definition lstrip :: "string \<Rightarrow> string" where
  "lstrip s = dropWhile is_space s"

definition rstrip :: "string \<Rightarrow> string" where
  "rstrip s = rev (dropWhile is_space (rev s))"

definition strip :: "string \<Rightarrow> string" where
  \<comment> \<open>\<open>s.strip()\<close>\<close>
  "strip s = rstrip (lstrip s)"

fun find_str :: "string \<Rightarrow> string \<Rightarrow> nat option" where
  \<comment> \<open>\<open>s.find(sub)\<close>, with \<open>None\<close> for Python's \<open>-1\<close>\<close>
  "find_str sub [] = (if sub = [] then Some 0 else None)"
| "find_str sub (c # cs) =
     (if prefix sub (c # cs) then Some 0 else map_option Suc (find_str sub cs))"

definition find_from :: "string \<Rightarrow> string \<Rightarrow> nat \<Rightarrow> nat option" where
  \<comment> \<open>\<open>s.find(sub, start)\<close>\<close>
  "find_from sub s start =
     (if start \<le> length s then map_option (\<lambda>i. i + start) (find_str sub (drop start s))
      else None)"

definition contains :: "string \<Rightarrow> string \<Rightarrow> bool" where
  \<comment> \<open>\<open>sub in s\<close>\<close>
  "contains sub s = (find_str sub s \<noteq> None)"

definition slice :: "string \<Rightarrow> nat \<Rightarrow> nat \<Rightarrow> string" where
  \<comment> \<open>\<open>s[a:b]\<close> for non-negative \<open>a\<close> and \<open>b\<close>\<close>
  "slice s a b = take (b - a) (drop a s)"

section \<open>Evaluation module: locating the JSON object in a completion reply\<close>

text \<open>
  \<open>_extract_first_complete_json\<close>: the loop over \<open>enumerate(text)\<close> carries the index
  \<open>i\<close>, the counter \<open>brace_count\<close> and \<open>start_idx\<close> (initially \<open>-1\<close>). It returns
  \<open>text[start_idx:i+1]\<close> at the first closing brace that brings the counter to zero after
  an opening brace was seen, and the empty string when the text runs out.
\<close>

fun scan_braces :: "string \<Rightarrow> nat \<Rightarrow> int \<Rightarrow> int \<Rightarrow> string \<Rightarrow> string" where
  "scan_braces text i brace_count start_idx [] = []"
| "scan_braces text i brace_count start_idx (c # cs) =
     (if c = CHR ''{'' then
        scan_braces text (i + 1) (brace_count + 1)
          (if start_idx = - 1 then int i else start_idx) cs
      else if c = CHR ''}'' then
        (if brace_count - 1 = 0 \<and> start_idx \<noteq> - 1
         then slice text (nat start_idx) (i + 1)
         else scan_braces text (i + 1) (brace_count - 1) start_idx cs)
      else scan_braces text (i + 1) brace_count start_idx cs)"

definition extract_first_complete_json :: "string \<Rightarrow> string" where
  "extract_first_complete_json text = scan_braces text 0 0 (- 1) text"

text \<open>
  The extraction step of \<open>call_ollama_api\<close>, from the raw reply to \<open>json_content\<close>
  (before \<open>_clean_json_response\<close> and \<open>json.loads\<close>): a fenced block first, then a reply
  that starts with a brace once stripped, then the first brace anywhere. Both
  \<open>ValueError\<close>s are raised to the enclosing handler, which returns \<open>None\<close>.
\<close>

definition fence_json :: string where
  "fence_json = [CHR 0x60, CHR 0x60, CHR 0x60, CHR ''j'', CHR ''s'', CHR ''o'', CHR ''n'']"

definition fence :: string where
  "fence = [CHR 0x60, CHR 0x60, CHR 0x60]"

definition extract_json_content :: "string \<Rightarrow> py_error + string" where
  "extract_json_content raw_response =
     (let located =
        (case find_str fence_json raw_response of
           Some k \<Rightarrow>
             (let json_start = k + 7 in
              Inr (strip (case find_from fence raw_response json_start of
                            Some json_end \<Rightarrow> slice raw_response json_start json_end
                          | None \<Rightarrow> slice raw_response json_start (length raw_response - 1))))
         | None \<Rightarrow>
             if prefix ''{'' (strip raw_response) then
               Inr (extract_first_complete_json (strip raw_response))
             else
               (case find_str ''{'' raw_response of
                  Some start_idx \<Rightarrow>
                    Inr (extract_first_complete_json (drop start_idx raw_response))
                | None \<Rightarrow> Inl ValueError))
      in case located of
           Inl e \<Rightarrow> Inl e
         | Inr json_content \<Rightarrow> if json_content = [] then Inl ValueError else Inr json_content)"

text \<open>
  Brace depth of a text, counting every brace (also those inside JSON string values), and
  the texts whose braces balance for the first time at their last character.
\<close>

definition brace_depth :: "string \<Rightarrow> int" where
  "brace_depth s = int (count_list s CHR ''{'') - int (count_list s CHR ''}'')"

definition closes_at_end :: "string \<Rightarrow> bool" where
  "closes_at_end obj =
     (prefix ''{'' obj \<and> brace_depth obj = 0 \<and>
      (\<forall>k \<in> {1 ..< length obj}. 0 < brace_depth (take k obj)))"

section \<open>Evaluation module: the batch driver\<close>

text \<open>
  \<open>batch_evaluate_sessions\<close>. The evaluation of one session talks to the store and to the
  completion endpoint, so \<open>evaluate\<close> takes the state of the world and returns the new
  one with its result: \<open>Inr (Some report)\<close> for a report that is truthy, \<open>Inr None\<close> for
  \<open>None\<close> (or any falsy value), \<open>Inl e\<close> for an exception. The rate is computed after the
  loop as \<open>len(successful) / len(session_ids) * 100\<close>; the division raises on an empty
  list and nothing catches it. The quotient is kept exact (float rounding is not modelled).
\<close>

record 'r batch_results =
  successful_evaluations :: "(string \<times> 'r) list"
  failed_evaluations :: "string list"
  total_processed :: nat
  success_rate :: rat

type_synonym ('r, 'w) evaluator = "string \<Rightarrow> 'w \<Rightarrow> (py_error + 'r option) \<times> 'w"

fun batch_loop ::
  "('r, 'w) evaluator \<Rightarrow> string list \<Rightarrow> 'r batch_results \<Rightarrow> 'w \<Rightarrow> 'r batch_results \<times> 'w" where
  "batch_loop evaluate [] results w = (results, w)"
| "batch_loop evaluate (session_id # rest) results w =
     (case evaluate session_id w of
        (Inr (Some evaluation), w') \<Rightarrow>
          batch_loop evaluate rest
            (results\<lparr>successful_evaluations :=
                successful_evaluations results @ [(session_id, evaluation)]\<rparr>) w'
      | (Inr None, w') \<Rightarrow>
          batch_loop evaluate rest
            (results\<lparr>failed_evaluations := failed_evaluations results @ [session_id]\<rparr>) w'
      | (Inl e, w') \<Rightarrow>
          batch_loop evaluate rest
            (results\<lparr>failed_evaluations := failed_evaluations results @ [session_id]\<rparr>) w')"

definition batch_evaluate_sessions ::
  "('r, 'w) evaluator \<Rightarrow> string list \<Rightarrow> 'w \<Rightarrow> (py_error + 'r batch_results) \<times> 'w" where
  "batch_evaluate_sessions evaluate session_ids w =
     (let (results, w') =
        batch_loop evaluate session_ids
          \<lparr>successful_evaluations = [], failed_evaluations = [],
           total_processed = length session_ids, success_rate = 0\<rparr> w
      in if length session_ids = 0 then (Inl ZeroDivisionError, w')
         else (Inr (results\<lparr>success_rate :=
                  of_nat (length (successful_evaluations results))
                    / of_nat (length session_ids) * 100\<rparr>), w'))"

text \<open>The outcomes of the evaluations, in the order in which the loop runs them.\<close>

fun outcomes :: "('r, 'w) evaluator \<Rightarrow> string list \<Rightarrow> 'w \<Rightarrow> (string \<times> (py_error + 'r option)) list" where
  "outcomes evaluate [] w = []"
| "outcomes evaluate (session_id # rest) w =
     (case evaluate session_id w of (r, w') \<Rightarrow> (session_id, r) # outcomes evaluate rest w')"

fun succeeded :: "string \<times> (py_error + 'r option) \<Rightarrow> (string \<times> 'r) option" where
  "succeeded (session_id, Inr (Some evaluation)) = Some (session_id, evaluation)"
| "succeeded (session_id, _) = None"

fun failed :: "string \<times> (py_error + 'r option) \<Rightarrow> string option" where
  "failed (session_id, Inr (Some evaluation)) = None"
| "failed (session_id, _) = Some session_id"

section \<open>The persistent store\<close>

text \<open>
  The store is an external collaborator. A client offers the two queries the code builds:
  \<open>table(t).select(col).eq(idcol, id).execute()\<close> and
  \<open>table(t).update({col: v}).eq(idcol, id).execute()\<close>. Each runs on the state of the
  store and either raises or returns \<open>response.data\<close>, a list of rows (a missing or
  \<open>None\<close> \<open>data\<close> is the empty list). \<open>None\<close> for the client is an uninitialised client.
\<close>

type_synonym row = "(string \<times> json) list"
type_synonym response = "py_error + row list"

record 'db supabase =
  select_eq :: "string \<Rightarrow> string \<Rightarrow> string \<Rightarrow> string \<Rightarrow> 'db \<Rightarrow> response \<times> 'db"
  update_eq :: "string \<Rightarrow> string \<Rightarrow> json \<Rightarrow> string \<Rightarrow> string \<Rightarrow> 'db \<Rightarrow> response \<times> 'db"

definition dict_get :: "row \<Rightarrow> string \<Rightarrow> json" where
  \<comment> \<open>\<open>d.get(key)\<close>\<close>
  "dict_get d key = (case map_of d key of Some v \<Rightarrow> v | None \<Rightarrow> JNull)"

text \<open>
  \<open>save_evaluation_report\<close> of the evaluation module: existence check, update, read-back.
  Every exception is caught and turned into \<open>False\<close>.
\<close>

definition save_evaluation_report ::
  "'db supabase option \<Rightarrow> string \<Rightarrow> json \<Rightarrow> 'db \<Rightarrow> bool \<times> 'db" where
  "save_evaluation_report supabase_client session_id evaluation_report db =
     (case supabase_client of
        None \<Rightarrow> (False, db)
      | Some client \<Rightarrow>
          (case select_eq client ''interview_sessions'' ''session_id'' ''session_id'' session_id db of
             (Inl e, db1) \<Rightarrow> (False, db1)
           | (Inr check_data, db1) \<Rightarrow>
               if check_data = [] then (False, db1)
               else
                 (case update_eq client ''interview_sessions'' ''Interview_report''
                         evaluation_report ''session_id'' session_id db1 of
                    (Inl e, db2) \<Rightarrow> (False, db2)
                  | (Inr update_data, db2) \<Rightarrow>
                      if update_data \<noteq> [] then
                        (case select_eq client ''interview_sessions'' ''Interview_report''
                                ''session_id'' session_id db2 of
                           (Inl e, db3) \<Rightarrow> (False, db3)
                         | (Inr verify_data, db3) \<Rightarrow>
                             if verify_data \<noteq> []
                                \<and> truthy (dict_get (hd verify_data) ''Interview_report'')
                             then (True, db3) else (False, db3))
                      else (False, db2))))"

text \<open>
  \<open>save_initial_json_to_db\<close> of \<open>Job_Transformer_Supabase_v1.0\<close>: one update, whose
  \<open>result.data\<close> is returned as it is; exceptions are logged and raised again. Its caller
  \<open>process_job_description_from_db\<close> ignores the returned value, and the batch loop
  \<open>process_all_pending_jobs\<close> prints the success line for every call that does not raise.
\<close>

definition save_initial_json_to_db ::
  "'db supabase option \<Rightarrow> string \<Rightarrow> json \<Rightarrow> 'db \<Rightarrow> response \<times> 'db" where
  "save_initial_json_to_db supabase_client template_id initial_json db =
     (case supabase_client of
        None \<Rightarrow> (Inl Exception, db)
      | Some client \<Rightarrow>
          (case update_eq client ''job_templates'' ''initial_json_schema'' initial_json
                  ''template_id'' template_id db of
             (Inl e, db') \<Rightarrow> (Inl e, db')
           | (Inr data, db') \<Rightarrow> (Inr data, db')))"

text \<open>
  A store held in memory, to run the code on: tables of rows; an update changes the rows
  whose identifier column matches and returns them, so it returns no row when none matches.
\<close>

type_synonym mem_db = "(string \<times> row list) list"

definition mem_rows :: "mem_db \<Rightarrow> string \<Rightarrow> row list" where
  "mem_rows db t = (case map_of db t of Some rows \<Rightarrow> rows | None \<Rightarrow> [])"

definition mem_select :: "string \<Rightarrow> string \<Rightarrow> string \<Rightarrow> string \<Rightarrow> mem_db \<Rightarrow> response \<times> mem_db" where
  "mem_select t col idcol ident db =
     (Inr (map (\<lambda>r. [(col, dict_get r col)])
             (filter (\<lambda>r. map_of r idcol = Some (JStr ident)) (mem_rows db t))), db)"

definition set_column :: "string \<Rightarrow> json \<Rightarrow> row \<Rightarrow> row" where
  "set_column col v r = (col, v) # filter (\<lambda>kv. fst kv \<noteq> col) r"

definition mem_update ::
  "string \<Rightarrow> string \<Rightarrow> json \<Rightarrow> string \<Rightarrow> string \<Rightarrow> mem_db \<Rightarrow> response \<times> mem_db" where
  "mem_update t col v idcol ident db =
     (let rows' = map (\<lambda>r. if map_of r idcol = Some (JStr ident) then set_column col v r else r)
                    (mem_rows db t)
      in (Inr (filter (\<lambda>r. map_of r idcol = Some (JStr ident)) rows'),
          (t, rows') # filter (\<lambda>tr. fst tr \<noteq> t) db))"

definition mem_client :: "mem_db supabase" where
  "mem_client = \<lparr>select_eq = mem_select, update_eq = mem_update\<rparr>"

section \<open>Evaluation module: reconstructing the conversation\<close>

text \<open>
  Python's \<open>key in x\<close> and \<open>x[key]\<close> for a string key on a JSON value: a dictionary looks
  the key up, a list compares its elements with the key, a string searches the key as a
  substring; the other values raise \<open>TypeError\<close>. Indexing anything but a dictionary with
  a string raises.
\<close>

fun py_in :: "string \<Rightarrow> json \<Rightarrow> py_error + bool" where
  "py_in key (JDict d) = Inr (map_of d key \<noteq> None)"
| "py_in key (JList xs) = Inr (List.member xs (JStr key))"
| "py_in key (JStr s) = Inr (contains key s)"
| "py_in key v = Inl TypeError"

fun py_getitem :: "json \<Rightarrow> string \<Rightarrow> py_error + json" where
  "py_getitem (JDict d) key = (case map_of d key of Some v \<Rightarrow> Inr v | None \<Rightarrow> Inl KeyError)"
| "py_getitem v key = Inl TypeError"

definition dict_set :: "(string \<times> 'v) list \<Rightarrow> string \<Rightarrow> 'v \<Rightarrow> (string \<times> 'v) list" where
  \<comment> \<open>\<open>d[key] = v\<close>: an existing key keeps its place, a new one goes last\<close>
  "dict_set d key v =
     (if map_of d key = None then d @ [(key, v)]
      else map (\<lambda>kv. if fst kv = key then (key, v) else kv) d)"

text \<open>
  \<open>str(v)\<close> is the text itself for a string; for the other values the text Python prints
  is taken as a parameter \<open>repr\<close>.
\<close>

definition py_str :: "(json \<Rightarrow> string) \<Rightarrow> json \<Rightarrow> string" where
  "py_str repr v = (case v of JStr s \<Rightarrow> s | _ \<Rightarrow> repr v)"

definition role_keys :: "string list" where
  "role_keys = [''role'', ''speaker'', ''type'']"

definition message_keys :: "string list" where
  "message_keys = [''message'', ''content'', ''text'', ''response'']"

definition conversation_keys :: "string list" where
  "conversation_keys =
     [''conversation'', ''chat_history'', ''messages'', ''qa_pairs'', ''dialogue'',
      ''conversation_history'']"

text \<open>\<open>for k in keys: if k in exchange: ... = exchange[k]; break\<close>\<close>

fun first_present :: "string list \<Rightarrow> row \<Rightarrow> json option" where
  "first_present [] exchange = None"
| "first_present (k # ks) exchange =
     (case map_of exchange k of Some v \<Rightarrow> Some v | None \<Rightarrow> first_present ks exchange)"

text \<open>The body of the loop over the exchanges: one step on the list \<open>conversation\<close>.\<close>

definition standardize_exchange :: "json list \<Rightarrow> json \<Rightarrow> json list" where
  "standardize_exchange conversation exchange =
     (case exchange of
        JDict d \<Rightarrow>
          (let se0 = [];
               se1 = (case first_present role_keys d of
                        Some r \<Rightarrow> dict_set se0 ''role'' r | None \<Rightarrow> se0);
               se2 = (case first_present message_keys d of
                        Some c \<Rightarrow> dict_set se1 ''content'' c | None \<Rightarrow> se1)
           in if map_of se2 ''role'' \<noteq> None \<and> map_of se2 ''content'' \<noteq> None
              then conversation @ [JDict se2] else conversation)
      | _ \<Rightarrow> conversation)"

text \<open>
  \<open>for key in conversation_keys: if key in session_information: ...; break\<close>: the first key
  present ends the loop, whatever its value holds.
\<close>

fun scan_conversation_keys :: "string list \<Rightarrow> row \<Rightarrow> json list \<Rightarrow> json list" where
  "scan_conversation_keys [] session_information conversation = conversation"
| "scan_conversation_keys (key # keys) session_information conversation =
     (case map_of session_information key of
        Some raw_conversation \<Rightarrow>
          (case raw_conversation of
             JList exchanges \<Rightarrow> foldl standardize_exchange conversation exchanges
           | _ \<Rightarrow> conversation)
      | None \<Rightarrow> scan_conversation_keys keys session_information conversation)"

definition qa_turns :: "(json \<Rightarrow> string) \<Rightarrow> json list \<Rightarrow> json \<times> json \<Rightarrow> json list" where
  "qa_turns repr conversation qa =
     conversation @
       [JDict [(''role'', JStr ''assistant''), (''content'', JStr (py_str repr (fst qa)))],
        JDict [(''role'', JStr ''user''), (''content'', JStr (py_str repr (snd qa)))]]"

definition extract_conversation_body :: "(json \<Rightarrow> string) \<Rightarrow> json \<Rightarrow> py_error + json list" where
  "extract_conversation_body repr session_information =
     (case session_information of
        JList (session_item # others) \<Rightarrow>
          (case session_item of
             JDict item \<Rightarrow>
               (case map_of item ''session_data'' of
                  Some session_data \<Rightarrow>
                    (case py_in ''conversation_history'' session_data of
                       Inl e \<Rightarrow> Inl e
                     | Inr False \<Rightarrow> Inr []
                     | Inr True \<Rightarrow>
                         (case py_getitem session_data ''conversation_history'' of
                            Inl e \<Rightarrow> Inl e
                          | Inr conversation_history \<Rightarrow>
                              (case conversation_history of
                                 JList exchanges \<Rightarrow> Inr (foldl standardize_exchange [] exchanges)
                               | _ \<Rightarrow> Inr [])))
                | None \<Rightarrow> Inr [])
           | _ \<Rightarrow> Inr [])
      | JDict si \<Rightarrow>
          (let conversation = scan_conversation_keys conversation_keys si [] in
           if conversation = [] then
             (if map_of si ''questions'' \<noteq> None \<and> map_of si ''answers'' \<noteq> None then
                (case (dict_get si ''questions'', dict_get si ''answers'') of
                   (JList questions, JList answers) \<Rightarrow>
                     Inr (foldl (qa_turns repr) conversation (zip questions answers))
                 | _ \<Rightarrow> Inr conversation)
              else Inr conversation)
           else Inr conversation)
      | _ \<Rightarrow> Inr [])"

definition extract_conversation_data :: "(json \<Rightarrow> string) \<Rightarrow> json \<Rightarrow> json list" where
  \<comment> \<open>the \<open>try\<close> around the body: any exception gives the empty list\<close>
  "extract_conversation_data repr session_information =
     (case extract_conversation_body repr session_information of
        Inl e \<Rightarrow> []
      | Inr conversation \<Rightarrow> conversation)"

text \<open>
  The reconstruction in the words of the specification, written without the constants
  of the code. The role of an exchange is the first of \<open>role\<close>, \<open>speaker\<close>, \<open>type\<close> that
  it has, its content the first of \<open>message\<close>, \<open>content\<close>, \<open>text\<close>, \<open>response\<close>; an
  exchange that lacks one of the two is dropped.
\<close>

definition role_aliases :: "string list" where
  "role_aliases = [''role'', ''speaker'', ''type'']"

definition content_aliases :: "string list" where
  "content_aliases = [''message'', ''content'', ''text'', ''response'']"

definition conversation_aliases :: "string list" where
  "conversation_aliases =
     [''conversation'', ''chat_history'', ''messages'', ''qa_pairs'', ''dialogue'',
      ''conversation_history'']"

definition spec_resolve :: "string list \<Rightarrow> row \<Rightarrow> json option" where
  "spec_resolve aliases d =
     (case List.find (\<lambda>k. k \<in> fst ` set d) aliases of
        Some k \<Rightarrow> map_of d k
      | None \<Rightarrow> None)"

definition spec_exchange :: "json \<Rightarrow> json option" where
  "spec_exchange e =
     (case e of
        JDict d \<Rightarrow>
          (case (spec_resolve role_aliases d, spec_resolve content_aliases d) of
             (Some r, Some c) \<Rightarrow> Some (JDict [(''role'', r), (''content'', c)])
           | _ \<Rightarrow> None)
      | _ \<Rightarrow> None)"

definition spec_exchanges :: "json \<Rightarrow> json list" where
  "spec_exchanges v = (case v of JList es \<Rightarrow> List.map_filter spec_exchange es | _ \<Rightarrow> [])"

definition session_history :: "json \<Rightarrow> json list" where
  \<comment> \<open>the exchanges of a session object that nests a \<open>conversation_history\<close> list\<close>
  "session_history session =
     (case session of
        JDict item \<Rightarrow>
          (case map_of item ''session_data'' of
             Some (JDict session_data) \<Rightarrow>
               (case map_of session_data ''conversation_history'' of
                  Some history \<Rightarrow> spec_exchanges history
                | None \<Rightarrow> [])
           | _ \<Rightarrow> [])
      | _ \<Rightarrow> [])"

definition spec_shape_c :: "(json \<Rightarrow> string) \<Rightarrow> json \<Rightarrow> json list" where
  \<comment> \<open>shape (c): parallel \<open>questions\<close> and \<open>answers\<close> arrays, zipped\<close>
  "spec_shape_c repr x =
     (case x of
        JDict d \<Rightarrow>
          (case (map_of d ''questions'', map_of d ''answers'') of
             (Some (JList questions), Some (JList answers)) \<Rightarrow>
               concat (map (\<lambda>(q, a).
                   [JDict [(''role'', JStr ''assistant''), (''content'', JStr (py_str repr q))],
                    JDict [(''role'', JStr ''user''), (''content'', JStr (py_str repr a))]])
                 (zip questions answers))
           | _ \<Rightarrow> [])
      | _ \<Rightarrow> [])"

definition first_yield :: "json list list \<Rightarrow> json list" where
  \<comment> \<open>the first of the candidates that yields at least one exchange\<close>
  "first_yield candidates =
     (case filter (\<lambda>es. es \<noteq> []) candidates of [] \<Rightarrow> [] | es # rest \<Rightarrow> es)"

text \<open>
  The shapes as the specification states them: (a) a single-element list wrapping the
  session object; (b) an object exposing one of the aliased conversation keys, read here
  as the first aliased key under which the object holds at least one exchange.
\<close>

definition stated_shape_a :: "json \<Rightarrow> json list" where
  "stated_shape_a x = (case x of JList [session] \<Rightarrow> session_history session | _ \<Rightarrow> [])"

definition stated_shape_b :: "json \<Rightarrow> json list" where
  "stated_shape_b x =
     (case x of
        JDict d \<Rightarrow>
          first_yield
            (map (\<lambda>k. case map_of d k of Some history \<Rightarrow> spec_exchanges history | None \<Rightarrow> [])
               conversation_aliases)
      | _ \<Rightarrow> [])"

definition stated_reconstruct :: "(json \<Rightarrow> string) \<Rightarrow> json \<Rightarrow> json list" where
  "stated_reconstruct repr x =
     first_yield [stated_shape_a x, stated_shape_b x, spec_shape_c repr x]"

text \<open>
  The shapes as amended: (a) a non-empty list whose first element is the session object;
  (b) an object that has one of the aliased conversation keys, read at the first of them
  that it has, whatever that key holds.
\<close>

definition spec_shape_a :: "json \<Rightarrow> json list" where
  "spec_shape_a x =
     (case x of JList (session # others) \<Rightarrow> session_history session | _ \<Rightarrow> [])"

definition spec_shape_b :: "json \<Rightarrow> json list" where
  "spec_shape_b x =
     (case x of
        JDict d \<Rightarrow>
          (case spec_resolve conversation_aliases d of
             Some history \<Rightarrow> spec_exchanges history
           | None \<Rightarrow> [])
      | _ \<Rightarrow> [])"

definition spec_reconstruct :: "(json \<Rightarrow> string) \<Rightarrow> json \<Rightarrow> json list" where
  "spec_reconstruct repr x =
     first_yield [spec_shape_a x, spec_shape_b x, spec_shape_c repr x]"

section \<open>Regular expressions as Python's \<open>re\<close> matches them\<close>

text \<open>
  The patterns of the code use characters and character classes, sequence, alternation,
  greedy and lazy repetition, capturing groups and the anchors \<open>^\<close> and \<open>$\<close>. A character
  class is a predicate on characters.
\<close>

datatype regex =
    Sym "char \<Rightarrow> bool"
  | Eps
  | Seq regex regex
  | Alt regex regex
  | Star regex
  | LazyStar regex
  | Group nat regex
  | Bol
  | Eol

text \<open>
  \<open>run\<close> is the backtracking matcher. Its state is the position, the rest of the subject
  and the groups captured so far; its first argument is the work still to do: patterns
  to match, in order, and the checks that go with them (\<open>Shorter n\<close>: an iteration of a
  repetition must have consumed something; \<open>Close n b\<close>: group \<open>n\<close>, opened at \<open>b\<close>, ends
  here; \<open>Advance p\<close>: the match must not end at \<open>p\<close>). Alternatives are tried in the order
  in which \<open>re\<close> tries them: the first branch first, a greedy repetition longest first, a
  lazy one shortest first. The first way through all the work is the match.
\<close>

type_synonym caps = "(nat \<times> nat \<times> nat) list"
type_synonym mstate = "nat \<times> string \<times> caps"

datatype frame = Match regex | Shorter nat | Close nat nat | Advance nat

fun weight :: "regex \<Rightarrow> nat" where
  "weight (Sym p) = 1"
| "weight Eps = 1"
| "weight (Seq a b) = 1 + weight a + weight b"
| "weight (Alt a b) = 1 + weight a + weight b"
| "weight (Star r) = 1 + weight r"
| "weight (LazyStar r) = 1 + weight r"
| "weight (Group n r) = 2 + weight r"
| "weight Bol = 1"
| "weight Eol = 1"

fun pending :: "frame list \<Rightarrow> nat \<Rightarrow> nat" where
  "pending [] l = 0"
| "pending (Match r # fs) l = weight r + pending fs l"
| "pending (Shorter n # fs) l = (if l < n then 1 + pending fs l else 0)"
| "pending (Close n b # fs) l = 1 + pending fs l"
| "pending (Advance p # fs) l = 1 + pending fs l"

function run :: "frame list \<Rightarrow> mstate \<Rightarrow> mstate option" where
  "run [] st = Some st"
| "run (Match (Sym p) # fs) st =
     (case st of
        (pos, c # cs, caps) \<Rightarrow> if p c then run fs (pos + 1, cs, caps) else None
      | (pos, [], caps) \<Rightarrow> None)"
| "run (Match Eps # fs) st = run fs st"
| "run (Match (Seq a b) # fs) st = run (Match a # Match b # fs) st"
| "run (Match (Alt a b) # fs) st =
     (case run (Match a # fs) st of Some m \<Rightarrow> Some m | None \<Rightarrow> run (Match b # fs) st)"
| "run (Match (Star r) # fs) st =
     (case run (Match r # Shorter (length (fst (snd st))) # Match (Star r) # fs) st of
        Some m \<Rightarrow> Some m
      | None \<Rightarrow> run fs st)"
| "run (Match (LazyStar r) # fs) st =
     (case run fs st of
        Some m \<Rightarrow> Some m
      | None \<Rightarrow>
          run (Match r # Shorter (length (fst (snd st))) # Match (LazyStar r) # fs) st)"
| "run (Match (Group n r) # fs) st = run (Match r # Close n (fst st) # fs) st"
| "run (Match Bol # fs) st = (if fst st = 0 then run fs st else None)"
| "run (Match Eol # fs) st =
     (if fst (snd st) = [] \<or> fst (snd st) = [CHR 0x0A] then run fs st else None)"
| "run (Shorter n # fs) st = (if length (fst (snd st)) < n then run fs st else None)"
| "run (Close n b # fs) st = run fs (fst st, fst (snd st), (n, b, fst st) # snd (snd st))"
| "run (Advance p # fs) st = (if fst st = p then None else run fs st)"
  by pat_completeness auto
termination
  by (relation "measures [\<lambda>(fs, st). length (fst (snd st)),
                          \<lambda>(fs, st). pending fs (length (fst (snd st)))]") auto

text \<open>
  One attempt at a position. With \<open>must_advance\<close> (the previous match was empty and ended
  here) a match that ends where it starts is refused and the matcher backtracks.
\<close>

definition match_here :: "regex \<Rightarrow> bool \<Rightarrow> nat \<Rightarrow> string \<Rightarrow> mstate option" where
  "match_here r must_advance pos rest =
     run (if must_advance then [Match r, Advance pos] else [Match r]) (pos, rest, [])"

text \<open>\<open>re.search\<close>: the match at the leftmost position that has one, as (start, end, groups).\<close>

fun search_from :: "regex \<Rightarrow> nat \<Rightarrow> string \<Rightarrow> (nat \<times> nat \<times> caps) option" where
  "search_from r pos [] =
     (case match_here r False pos [] of
        Some st \<Rightarrow> Some (pos, fst st, snd (snd st))
      | None \<Rightarrow> None)"
| "search_from r pos (c # cs) =
     (case match_here r False pos (c # cs) of
        Some st \<Rightarrow> Some (pos, fst st, snd (snd st))
      | None \<Rightarrow> search_from r (pos + 1) cs)"

definition re_search :: "regex \<Rightarrow> string \<Rightarrow> (nat \<times> nat \<times> caps) option" where
  "re_search r s = search_from r 0 s"

text \<open>
  \<open>re.finditer\<close>: the non-overlapping matches from left to right. \<open>skip\<close> counts the
  characters still covered by the match found last. After an empty match the same
  position is tried once more for a match that advances.
\<close>

fun scan_matches :: "regex \<Rightarrow> nat \<Rightarrow> string \<Rightarrow> nat \<Rightarrow> (nat \<times> nat \<times> caps) list" where
  "scan_matches r pos [] skip =
     (if skip > 0 then []
      else case match_here r False pos [] of
             Some st \<Rightarrow> [(pos, fst st, snd (snd st))]
           | None \<Rightarrow> [])"
| "scan_matches r pos (c # cs) skip =
     (if skip > 0 then scan_matches r (pos + 1) cs (skip - 1)
      else case match_here r False pos (c # cs) of
             None \<Rightarrow> scan_matches r (pos + 1) cs 0
           | Some st \<Rightarrow>
               if fst st = pos then
                 (case match_here r True pos (c # cs) of
                    None \<Rightarrow> (pos, pos, snd (snd st)) # scan_matches r (pos + 1) cs 0
                  | Some st' \<Rightarrow>
                      (pos, pos, snd (snd st)) # (pos, fst st', snd (snd st'))
                        # scan_matches r (pos + 1) cs (fst st' - pos - 1))
               else (pos, fst st, snd (snd st)) # scan_matches r (pos + 1) cs (fst st - pos - 1))"

definition re_finditer :: "regex \<Rightarrow> string \<Rightarrow> (nat \<times> nat \<times> caps) list" where
  "re_finditer r s = scan_matches r 0 s 0"

definition group :: "string \<Rightarrow> nat \<times> nat \<times> caps \<Rightarrow> nat \<Rightarrow> string" where
  \<comment> \<open>\<open>match.group(n)\<close> for a group that took part in the match; \<open>group(0)\<close> is the match\<close>
  "group s m n =
     (if n = 0 then slice s (fst m) (fst (snd m))
      else case map_of (snd (snd m)) n of
             Some (b, e) \<Rightarrow> slice s b e
           | None \<Rightarrow> [])"

text \<open>
  \<open>re.sub(pattern, repl, s)\<close>: the text between the matches is copied and each match is
  replaced by \<open>repl\<close>, which may use the groups of the match.
\<close>

fun splice :: "string \<Rightarrow> (string \<Rightarrow> nat \<times> nat \<times> caps \<Rightarrow> string) \<Rightarrow> nat \<Rightarrow> (nat \<times> nat \<times> caps) list \<Rightarrow> string" where
  "splice s repl i [] = drop i s"
| "splice s repl i (m # ms) = slice s i (fst m) @ repl s m @ splice s repl (fst (snd m)) ms"

definition re_sub :: "regex \<Rightarrow> (string \<Rightarrow> nat \<times> nat \<times> caps \<Rightarrow> string) \<Rightarrow> string \<Rightarrow> string" where
  "re_sub r repl s = splice s repl 0 (re_finditer r s)"

definition re_delete :: "regex \<Rightarrow> string \<Rightarrow> string" where
  \<comment> \<open>\<open>re.sub(pattern, '', s)\<close>\<close>
  "re_delete r s = re_sub r (\<lambda>s m. []) s"

text \<open>The pieces the patterns are written with.\<close>

definition is_digit :: "char \<Rightarrow> bool" where
  \<comment> \<open>\<open>\d\<close>\<close>
  "is_digit c = (48 \<le> (of_char c :: nat) \<and> (of_char c :: nat) \<le> 57)"

definition lower_char :: "char \<Rightarrow> char" where
  "lower_char c =
     (if 65 \<le> (of_char c :: nat) \<and> (of_char c :: nat) \<le> 90
      then char_of (of_char c + 32 :: nat) else c)"

definition upper_char :: "char \<Rightarrow> char" where
  "upper_char c =
     (if 97 \<le> (of_char c :: nat) \<and> (of_char c :: nat) \<le> 122
      then char_of (of_char c - 32 :: nat) else c)"

definition lower :: "string \<Rightarrow> string" where
  \<comment> \<open>\<open>s.lower()\<close>, on ASCII letters\<close>
  "lower s = map lower_char s"

definition upper :: "string \<Rightarrow> string" where
  \<comment> \<open>\<open>s.upper()\<close>, on ASCII letters\<close>
  "upper s = map upper_char s"

definition chr :: "char \<Rightarrow> regex" where
  "chr c = Sym (\<lambda>x. x = c)"

definition ichr :: "char \<Rightarrow> regex" where
  \<comment> \<open>a literal character under \<open>re.IGNORECASE\<close>\<close>
  "ichr c = Sym (\<lambda>x. lower_char x = lower_char c)"

definition oneof :: "string \<Rightarrow> regex" where
  \<comment> \<open>\<open>[...]\<close>\<close>
  "oneof cs = Sym (\<lambda>x. x \<in> set cs)"

definition noneof :: "string \<Rightarrow> regex" where
  \<comment> \<open>\<open>[^...]\<close>\<close>
  "noneof cs = Sym (\<lambda>x. x \<notin> set cs)"

definition digit :: regex where
  "digit = Sym is_digit"

definition space :: regex where
  \<comment> \<open>\<open>\s\<close>\<close>
  "space = Sym is_space"

definition dot :: regex where
  \<comment> \<open>\<open>.\<close>: any character but the newline\<close>
  "dot = Sym (\<lambda>x. x \<noteq> CHR 0x0A)"

fun seqs :: "regex list \<Rightarrow> regex" where
  "seqs [] = Eps"
| "seqs [r] = r"
| "seqs (r # rs) = Seq r (seqs rs)"

fun alts :: "regex list \<Rightarrow> regex" where
  "alts [] = Eps"
| "alts [r] = r"
| "alts (r # rs) = Alt r (alts rs)"

definition str :: "string \<Rightarrow> regex" where
  "str s = seqs (map chr s)"

definition istr :: "string \<Rightarrow> regex" where
  "istr s = seqs (map ichr s)"

definition Opt :: "regex \<Rightarrow> regex" where
  \<comment> \<open>\<open>r?\<close>\<close>
  "Opt r = Alt r Eps"

definition Plus :: "regex \<Rightarrow> regex" where
  \<comment> \<open>\<open>r+\<close>\<close>
  "Plus r = Seq r (Star r)"

definition Rep13 :: "regex \<Rightarrow> regex" where
  \<comment> \<open>\<open>r{1,3}\<close>\<close>
  "Rep13 r = Seq r (Opt (Seq r (Opt r)))"

section \<open>Evaluation module: cleaning the JSON text\<close>

text \<open>\<open>s.replace(old, new)\<close> for a non-empty \<open>old\<close>: occurrences from the left, not overlapping.\<close>

function replace :: "string \<Rightarrow> string \<Rightarrow> string \<Rightarrow> string" where
  "replace old new [] = []"
| "replace old new (c # cs) =
     (if old \<noteq> [] \<and> prefix old (c # cs)
      then new @ replace old new (drop (length old) (c # cs))
      else c # replace old new cs)"
  by pat_completeness auto
termination
  by (relation "measure (\<lambda>(old, new, s). length s)") (auto simp: neq_Nil_conv)

definition trailing_comma :: regex where
  \<comment> \<open>\<open>,(\s*[}\]])\<close>\<close>
  "trailing_comma = Seq (chr CHR '','') (Group 1 (Seq (Star space) (oneof ''}]'')))"

definition clean_json_response :: "string \<Rightarrow> string" where
  "clean_json_response json_content =
     (let j1 = replace ''\"N/A\"'' ''null'' json_content;
          j2 = replace [CHR 0x27, CHR ''N'', CHR ''/'', CHR ''A'', CHR 0x27] ''null'' j1;
          j3 = replace '': N/A'' '': null'' j2;
          j4 = replace '':N/A'' '': null'' j3;
          j5 = replace [CHR 0x0D] '' '' (replace [CHR 0x0A] '' '' j4)
      in re_sub trailing_comma (\<lambda>s m. group s m 1) j5)"

text \<open>
  The N/A tokens are the four texts that \<open>_clean_json_response\<close> replaces: the quoted
  \<open>"N/A"\<close> and \<open>'N/A'\<close>, and the bare \<open>N/A\<close> that follows a colon directly or after one
  blank. A bare \<open>N/A\<close> separated from its colon by a line break is not among them; it is
  named apart. A text is free of trailing commas when the pattern \<open>,(\s*[}\]])\<close> matches
  nowhere in it.
\<close>

definition na_tokens :: "string list" where
  "na_tokens =
     [''\"N/A\"'', [CHR 0x27, CHR ''N'', CHR ''/'', CHR ''A'', CHR 0x27], '': N/A'', '':N/A'']"

definition free_of_na_tokens :: "string \<Rightarrow> bool" where
  "free_of_na_tokens s = list_all (\<lambda>t. \<not> contains t s) na_tokens"

definition line_broken_na :: "string list" where
  "line_broken_na =
     [[CHR '':'', CHR 0x0A, CHR ''N'', CHR ''/'', CHR ''A''],
      [CHR '':'', CHR 0x0D, CHR ''N'', CHR ''/'', CHR ''A'']]"

definition free_of_line_broken_na :: "string \<Rightarrow> bool" where
  "free_of_line_broken_na s = list_all (\<lambda>t. \<not> contains t s) line_broken_na"

definition free_of_trailing_commas :: "string \<Rightarrow> bool" where
  "free_of_trailing_commas s = (re_search trailing_comma s = None)"

text \<open>What the two newline replacements do to one character.\<close>

definition collapse :: "char \<Rightarrow> char" where
  "collapse c = (if c = CHR 0x0A \<or> c = CHR 0x0D then CHR '' '' else c)"

text \<open>
  A pattern is stable under a map of characters when none of its classes can tell a
  character from its image and it has no end anchor; matching then commutes with the map.
\<close>

fun stable_under :: "(char \<Rightarrow> char) \<Rightarrow> regex \<Rightarrow> bool" where
  "stable_under f (Sym p) = (\<forall>c. p (f c) = p c)"
| "stable_under f Eps = True"
| "stable_under f (Seq a b) = (stable_under f a \<and> stable_under f b)"
| "stable_under f (Alt a b) = (stable_under f a \<and> stable_under f b)"
| "stable_under f (Star r) = stable_under f r"
| "stable_under f (LazyStar r) = stable_under f r"
| "stable_under f (Group n r) = stable_under f r"
| "stable_under f Bol = True"
| "stable_under f Eol = False"

definition mapst :: "(char \<Rightarrow> char) \<Rightarrow> mstate \<Rightarrow> mstate" where
  "mapst f st = (fst st, map f (fst (snd st)), snd (snd st))"

fun stable_frame :: "(char \<Rightarrow> char) \<Rightarrow> frame \<Rightarrow> bool" where
  "stable_frame f (Match r) = stable_under f r"
| "stable_frame f fr = True"

section \<open>Job transformer: the field block of a reply\<close>

fun split_on :: "char \<Rightarrow> string \<Rightarrow> string list" where
  \<comment> \<open>\<open>s.split(sep)\<close> for a separator of one character\<close>
  "split_on sep [] = [[]]"
| "split_on sep (c # cs) =
     (case split_on sep cs of
        [] \<Rightarrow> (if c = sep then [[], []] else [[c]])
      | x # xs \<Rightarrow> if c = sep then [] # x # xs else (c # x) # xs)"

definition field_prefix :: regex where
  \<comment> \<open>\<open>^(FIELD_NAME|Field|Key)\s*[-:]?\s*\<close> with \<open>re.IGNORECASE\<close>\<close>
  "field_prefix =
     seqs [Bol, Group 1 (alts [istr ''FIELD_NAME'', istr ''Field'', istr ''Key'']),
           Star space, Opt (oneof ''-:''), Star space]"

text \<open>
  \<open>parse_llama_response\<close> (the same in \<open>Job_Transformer_Ollama_v1.0\<close> and
  \<open>Job_Transformer_Supabase_v1.0\<close>). \<open>parse_line\<close> is the body of the loop over the lines:
  one step on the dictionary \<open>extracted_data\<close>.
\<close>

definition parse_line :: "(string \<times> string) list \<Rightarrow> string \<Rightarrow> (string \<times> string) list" where
  "parse_line extracted_data line0 =
     (let line = strip line0 in
      if CHR '':'' \<in> set line then
        (let field_name0 = takeWhile (\<lambda>c. c \<noteq> CHR '':'') line;
             value0 = drop 1 (dropWhile (\<lambda>c. c \<noteq> CHR '':'') line);
             field_name1 = strip field_name0;
             value = strip value0;
             field_name = re_delete field_prefix field_name1
         in if value \<noteq> [] \<and> lower value \<noteq> ''open''
            then dict_set extracted_data field_name value
            else dict_set extracted_data field_name ''OPEN'')
      else extracted_data)"

definition parse_llama_response :: "string \<Rightarrow> (string \<times> string) list" where
  "parse_llama_response llama_response =
     foldl parse_line [] (split_on (CHR 0x0A) (strip llama_response))"

section \<open>Salaries\<close>

definition digits_value :: "string \<Rightarrow> int" where
  \<comment> \<open>\<open>int(s)\<close> for a non-empty text of decimal digits\<close>
  "digits_value s = foldl (\<lambda>n c. 10 * n + (int (of_char c) - 48)) 0 s"

definition amount :: regex where
  \<comment> \<open>\<open>\d{1,3}(?:,\d{3})*\<close>\<close>
  "amount = Seq (Rep13 digit) (Star (seqs [chr CHR '','', digit, digit, digit]))"

definition cents :: regex where
  \<comment> \<open>\<open>(?:\.\d{2})?\<close>\<close>
  "cents = Opt (seqs [chr CHR ''.'', digit, digit])"











text \<open>
  \<open>parse_extracted_value\<close> of \<open>Job_Transformer_Supabase_v1.2\<close>, the coercion of one
  extracted field by its path. \<open>int(float(g))\<close> of a group of digits with an optional
  two-digit fraction is the number before the point.
\<close>

definition endswith :: "string \<Rightarrow> string \<Rightarrow> bool" where
  "endswith s suf = suffix suf s"

definition strip_chars :: "string \<Rightarrow> string \<Rightarrow> string" where
  \<comment> \<open>\<open>s.strip(chars)\<close>\<close>
  "strip_chars chars s =
     rev (dropWhile (\<lambda>c. c \<in> set chars) (rev (dropWhile (\<lambda>c. c \<in> set chars) s)))"

definition quote_chars :: string where
  "quote_chars = [CHR 0x27, CHR 0x22]"

definition clean_item :: "string \<Rightarrow> string" where
  "clean_item item0 =
     (let item1 = re_delete (seqs [Bol, LazyStar dot, chr CHR ''='', Star space,
                                   Opt (oneof quote_chars)]) item0;
          item2 = re_delete (seqs [Opt (oneof quote_chars), Star space, Eol]) item1
      in strip_chars quote_chars item2)"

definition objective :: "string \<Rightarrow> json" where
  "objective obj =
     JDict [(''objective'', JStr obj), (''timeframe'', JStr ''OPEN''), (''metric'', JStr ''OPEN'')]"

definition parse_extracted_value :: "string \<Rightarrow> string \<Rightarrow> json \<Rightarrow> json" where
  "parse_extracted_value raw_value field_path default_value =
     (if raw_value = ''OPEN'' \<or> raw_value = [] then default_value
      else if contains ''requiredYears'' field_path then
        (case re_search (Group 1 (Plus digit)) raw_value of
           Some years_match \<Rightarrow> JInt (digits_value (group raw_value years_match 1))
         | None \<Rightarrow> JInt 0)
      else if contains ''acceptsExperienceInLieu'' field_path then
        JBool (contains ''true'' (lower raw_value) \<or> contains ''yes'' (lower raw_value)
               \<or> contains ''equivalent'' (lower raw_value))
      else if contains ''salary'' field_path
              \<and> (contains ''min'' field_path \<or> contains ''max'' field_path) then
        (let text = replace '','' [] raw_value in
         case re_search (Seq (Opt (chr CHR ''$'')) (Group 1 (Seq amount cents))) text of
           Some salary_match \<Rightarrow>
             JInt (digits_value (takeWhile is_digit
                     (replace '','' [] (group text salary_match 1))))
         | None \<Rightarrow> JInt 0)
      else if endswith field_path ''duties'' \<or> endswith field_path ''benefits''
              \<or> endswith field_path ''technical'' \<or> endswith field_path ''soft'' then
        (let items =
           (if CHR ''|'' \<in> set raw_value
            then filter (\<lambda>item. item \<noteq> []) (map strip (split_on CHR ''|'' raw_value))
            else if raw_value \<noteq> ''OPEN'' then [raw_value] else [])
         in JList (map JStr (filter (\<lambda>item. item \<noteq> [] \<and> item \<noteq> ''OPEN'')
                                (map clean_item items))))
      else if contains ''keyObjectives'' field_path then
        (if CHR ''|'' \<in> set raw_value
         then JList (map (\<lambda>obj. objective (strip obj))
                       (filter (\<lambda>obj. strip obj \<noteq> []) (split_on CHR ''|'' raw_value)))
         else if raw_value \<noteq> ''OPEN'' then JList [objective raw_value]
         else JList [])
      else if raw_value \<noteq> ''OPEN'' then JStr raw_value else default_value)"

section \<open>Job transformer: cleaning a free-text reply\<close>

fun join :: "string \<Rightarrow> string list \<Rightarrow> string" where
  \<comment> \<open>\<open>sep.join(xs)\<close>\<close>
  "join sep [] = []"
| "join sep [x] = x"
| "join sep (x # xs) = x @ sep @ join sep xs"

definition field_descriptions :: "string list" where
  "field_descriptions =
     [''Job title or position name'',
      ''Brief summary or overview of the job role'',
      ''Work schedule type'',
      ''Daily tasks and responsibilities'',
      ''Required technical skills and technologies'',
      ''Required soft skills and personal qualities'',
      ''Description of required experience'',
      ''Required education credentials'']"

definition lead_in :: "string \<Rightarrow> regex" where
  \<comment> \<open>\<open>^.*?word.*?:\s*\<close> with \<open>re.IGNORECASE\<close>\<close>
  "lead_in word =
     seqs [Bol, LazyStar dot, istr word, LazyStar dot, chr CHR '':'', Star space]"

definition tail_from :: "string \<Rightarrow> string list \<Rightarrow> regex" where
  \<comment> \<open>\<open>\s*first.*?(w1|w2|...).*$\<close> with \<open>re.IGNORECASE\<close>\<close>
  "tail_from first ws =
     seqs [Star space, istr first, LazyStar dot, Group 1 (alts (map istr ws)), Star dot, Eol]"

definition skip_words :: "string list" where
  "skip_words = [''combining'', ''relevant'', ''covers'', ''aspects'', ''information'', ''provided'']"

definition negative_tokens :: "string list" where
  "negative_tokens = [''n/a'', ''not mentioned'', ''not specified'', ''not available'', ''none'']"

text \<open>
  The part of \<open>clean_response\<close> for a job summary: the sentences between full stops that
  hold none of the words to skip; the first two are kept.
\<close>

definition summary_sentences :: "string \<Rightarrow> string" where
  "summary_sentences response =
     (let sentences = split_on CHR ''.'' response;
          clean_sentences =
            filter (\<lambda>sentence. sentence \<noteq> []
                      \<and> \<not> list_ex (\<lambda>skip. contains skip (lower sentence)) skip_words)
              (map strip sentences)
      in if clean_sentences \<noteq> [] then
           (let joined = join ''. '' (take 2 clean_sentences) in
            if endswith joined ''.'' then joined else joined @ ''.'')
         else response)"

text \<open>
  \<open>clean_response\<close> of \<open>Job_Transformer_Supabase_v1.2\<close>. The bullet of the class
  \<open>[-\<bullet>*]\<close> lies outside the characters of the model, where the class is \<open>[-*]\<close>.
\<close>

definition scrub :: "string \<Rightarrow> string \<Rightarrow> string" where
  \<comment> \<open>from the removal of the lead-in phrases to the final \<open>strip\<close>\<close>
  "scrub response0 field_path =
     (let r1 = re_delete (lead_in ''extract'') response0;
          r2 = re_delete (seqs [Bol, LazyStar dot, istr ''from'', LazyStar dot,
                                istr ''job description'', LazyStar dot, chr CHR '':'',
                                Star space]) r1;
          r3 = re_delete (lead_in ''the following'') r2;
          r4 = re_delete (lead_in ''here is'') r3;
          r5 = re_delete (lead_in ''based on'') r4;
          r6 = re_delete (lead_in ''title'') r5;
          r7 = re_delete (lead_in ''summary'') r6;
          r8 = re_delete (lead_in ''skills'') r7;
          r9 = (case re_search (seqs [chr CHR 0x22, Group 1 (Plus (noneof [CHR 0x22])),
                                      chr CHR 0x22]) r8 of
                  Some quoted_match \<Rightarrow> group r8 quoted_match 1
                | None \<Rightarrow> r8);
          r10 = re_delete (seqs [Star space, chr CHR ''('', LazyStar dot, chr CHR '')'']) r9;
          r11 = re_delete (tail_from ''-'' [''mentioned'', ''found'', ''listed'']) r10;
          r12 = re_delete (tail_from ''this'' [''matches'', ''meets'', ''is'']) r11;
          r13 = re_delete (seqs [Star space, istr ''combining'', LazyStar dot,
                                 istr ''sentences'', LazyStar dot, chr CHR '':'']) r12;
          r14 = re_delete (seqs [Star space, istr ''no other information'', Star dot, Eol]) r13;
          r15 = re_delete (seqs [Star space, istr ''so this'', LazyStar dot, istr ''covers'',
                                 Star dot, Eol]) r14;
          r16 = (if contains ''jobSummary'' field_path then summary_sentences r15 else r15);
          r17 = re_delete (seqs [Bol, oneof ''-*'', Star space]) r16;
          r18 = re_delete (seqs [Star space, Plus (oneof ''.!?''), Eol]) r17;
          r19 = re_sub (Plus (chr (CHR 0x0A))) (\<lambda>s m. '' '') r18;
          r20 = re_sub (Plus space) (\<lambda>s m. '' '') r19
      in strip r20)"

definition clean_response :: "string \<Rightarrow> string \<Rightarrow> string" where
  "clean_response response0 field_path =
     (if response0 = [] \<or> strip response0 = [] then ''OPEN''
      else
        (let response = strip response0 in
         if contains ''OPEN'' (upper response) \<and> length response > 10 then ''OPEN''
         else if response \<in> set field_descriptions then ''OPEN''
         else
           (let cleaned = scrub response field_path in
            if cleaned = [] \<or> lower cleaned \<in> set negative_tokens then ''OPEN''
            else if cleaned \<in> set field_descriptions then ''OPEN''
            else cleaned)))"

section \<open>Templates as shared objects\<close>

text \<open>
  \<open>fill_json_template\<close> starts from \<open>template.copy()\<close>, a copy of the top dictionary only,
  so the dictionaries below it are shared with the caller's template. To see what that
  does, dictionaries live in a heap: a heap value is a scalar, a list of heap values or
  the address of a dictionary, and an assignment \<open>d[k] = x\<close> changes the dictionary at the
  address of \<open>d\<close>. (No list is changed in place by the code modelled here.)
\<close>

datatype hval =
    HNull
  | HBool bool
  | HInt int
  | HFloat rat
  | HStr string
  | HList "hval list"
  | HRef nat

type_synonym hdict = "(string \<times> hval) list"
type_synonym heap = "hdict list"

definition alloc :: "hdict \<Rightarrow> heap \<Rightarrow> nat \<times> heap" where
  "alloc d h = (length h, h @ [d])"

text \<open>Placing a JSON tree in the heap (what \<open>json.load\<close> or a literal builds).\<close>

fun store :: "json \<Rightarrow> heap \<Rightarrow> hval \<times> heap"
  and store_list :: "json list \<Rightarrow> heap \<Rightarrow> hval list \<times> heap"
  and store_entries :: "(string \<times> json) list \<Rightarrow> heap \<Rightarrow> hdict \<times> heap" where
  "store JNull h = (HNull, h)"
| "store (JBool b) h = (HBool b, h)"
| "store (JInt n) h = (HInt n, h)"
| "store (JFloat r) h = (HFloat r, h)"
| "store (JStr s) h = (HStr s, h)"
| "store (JList xs) h = (case store_list xs h of (vs, h') \<Rightarrow> (HList vs, h'))"
| "store (JDict kvs) h =
     (case store_entries kvs h of (d, h') \<Rightarrow> (case alloc d h' of (a, h'') \<Rightarrow> (HRef a, h'')))"
| "store_list [] h = ([], h)"
| "store_list (x # xs) h =
     (case store x h of (v, h') \<Rightarrow> (case store_list xs h' of (vs, h'') \<Rightarrow> (v # vs, h'')))"
| "store_entries [] h = ([], h)"
| "store_entries (kv # kvs) h =
     (case store (snd kv) h of (v, h') \<Rightarrow>
        (case store_entries kvs h' of (d, h'') \<Rightarrow> ((fst kv, v) # d, h'')))"

text \<open>Reading the tree below a heap value, to a depth given by \<open>fuel\<close>.\<close>

fun load :: "nat \<Rightarrow> heap \<Rightarrow> hval \<Rightarrow> json option" where
  "load fuel h HNull = Some JNull"
| "load fuel h (HBool b) = Some (JBool b)"
| "load fuel h (HInt n) = Some (JInt n)"
| "load fuel h (HFloat r) = Some (JFloat r)"
| "load fuel h (HStr s) = Some (JStr s)"
| "load 0 h (HList vs) = None"
| "load (Suc fuel) h (HList vs) =
     (if list_all (\<lambda>v. load fuel h v \<noteq> None) vs
      then Some (JList (map (\<lambda>v. the (load fuel h v)) vs)) else None)"
| "load 0 h (HRef a) = None"
| "load (Suc fuel) h (HRef a) =
     (if a < length h \<and> list_all (\<lambda>kv. load fuel h (snd kv) \<noteq> None) (h ! a)
      then Some (JDict (map (\<lambda>kv. (fst kv, the (load fuel h (snd kv)))) (h ! a))) else None)"

definition h_getitem :: "heap \<Rightarrow> hval \<Rightarrow> string \<Rightarrow> py_error + hval" where
  \<comment> \<open>\<open>d[key]\<close>\<close>
  "h_getitem h d key =
     (case d of
        HRef a \<Rightarrow> (case map_of (h ! a) key of Some x \<Rightarrow> Inr x | None \<Rightarrow> Inl KeyError)
      | _ \<Rightarrow> Inl TypeError)"

definition h_setitem :: "heap \<Rightarrow> hval \<Rightarrow> string \<Rightarrow> hval \<Rightarrow> py_error + heap" where
  \<comment> \<open>\<open>d[key] = x\<close>\<close>
  "h_setitem h d key x =
     (case d of
        HRef a \<Rightarrow> Inr (h[a := dict_set (h ! a) key x])
      | _ \<Rightarrow> Inl TypeError)"

fun assign :: "heap \<Rightarrow> hval \<Rightarrow> string list \<Rightarrow> hval \<Rightarrow> py_error + heap" where
  \<comment> \<open>\<open>d[k1][k2]...[kn] = x\<close>\<close>
  "assign h d [] x = Inr h"
| "assign h d [key] x = h_setitem h d key x"
| "assign h d (key # keys) x =
     (case h_getitem h d key of Inl e \<Rightarrow> Inl e | Inr d' \<Rightarrow> assign h d' keys x)"

fun assign_all :: "heap \<Rightarrow> hval \<Rightarrow> (string list \<times> json) list \<Rightarrow> py_error + heap" where
  \<comment> \<open>assignments in order, each storing its fresh value; the first exception ends them\<close>
  "assign_all h d [] = Inr h"
| "assign_all h d (pv # rest) =
     (case store (snd pv) h of (x, h') \<Rightarrow>
        (case assign h' d (fst pv) x of Inl e \<Rightarrow> Inl e | Inr h'' \<Rightarrow> assign_all h'' d rest))"

section \<open>Job transformer v1.0: filling the template\<close>

definition py_int :: "string \<Rightarrow> int option" where
  \<comment> \<open>\<open>int(s)\<close> on a text: blanks around, a sign, digits with single underscores between
      them; \<open>None\<close> for \<open>ValueError\<close>\<close>
  "py_int s =
     (let t = strip s;
          neg = prefix ''-'' t;
          u = (if prefix ''-'' t \<or> prefix ''+'' t then drop 1 t else t);
          groups = split_on CHR ''_'' u
      in if list_all (\<lambda>g. g \<noteq> [] \<and> list_all is_digit g) groups
         then Some ((if neg then - 1 else 1) * digits_value (concat groups))
         else None)"

definition get_or :: "(string \<times> string) list \<Rightarrow> string \<Rightarrow> string \<Rightarrow> string" where
  \<comment> \<open>\<open>extracted_data.get(key, default)\<close>\<close>
  "get_or extracted_data key dflt =
     (case map_of extracted_data key of Some v \<Rightarrow> v | None \<Rightarrow> dflt)"

definition present :: "(string \<times> string) list \<Rightarrow> string \<Rightarrow> bool" where
  \<comment> \<open>\<open>extracted_data.get(key) and extracted_data[key] != "OPEN"\<close>\<close>
  "present extracted_data key =
     (case map_of extracted_data key of
        Some v \<Rightarrow> v \<noteq> [] \<and> v \<noteq> ''OPEN''
      | None \<Rightarrow> False)"

definition pipe_items :: "string \<Rightarrow> string list" where
  \<comment> \<open>\<open>[x.strip() for x in s.split("|") if x.strip()]\<close>\<close>
  "pipe_items s = filter (\<lambda>x. x \<noteq> []) (map strip (split_on CHR ''|'' s))"

definition list_field ::
  "(string \<times> string) list \<Rightarrow> string \<Rightarrow> string list \<Rightarrow> (string list \<times> json) list" where
  "list_field extracted_data key path =
     (if present extracted_data key
      then [(path, JList (map JStr (pipe_items (get_or extracted_data key []))))]
      else [])"

text \<open>
  The assignments of \<open>fill_json_template\<close>, in the order of the source (the version of
  \<open>Job_Transformer_Supabase_v1.0\<close> takes the job identifier as an argument, the one of
  \<open>Job_Transformer_Ollama_v1.0\<close> builds it from the clock). The two \<open>try\<close> blocks compute
  their numbers first and fall back to 0 on \<open>ValueError\<close>.
\<close>

definition assignments ::
  "(string \<times> string) list \<Rightarrow> string \<Rightarrow> string \<Rightarrow> (string list \<times> json) list" where
  "assignments extracted_data job_id now =
     [([''jobProfile'', ''JobId''], JStr job_id),
      ([''jobProfile'', ''coreDetails'', ''title''],
         JStr (get_or extracted_data ''JOB_TITLE'' ''OPEN'')),
      ([''jobProfile'', ''coreDetails'', ''jobSummary''],
         JStr (get_or extracted_data ''JOB_SUMMARY'' ''OPEN'')),
      ([''jobProfile'', ''coreDetails'', ''employmentType'', ''agreement''],
         JStr (get_or extracted_data ''EMPLOYMENT_TYPE'' ''OPEN'')),
      ([''jobProfile'', ''coreDetails'', ''employmentType'', ''schedule''],
         JStr (get_or extracted_data ''SCHEDULE'' ''OPEN'')),
      ([''jobProfile'', ''coreDetails'', ''employmentType'', ''term''],
         JStr (get_or extracted_data ''TERM'' ''OPEN'')),
      ([''jobProfile'', ''coreDetails'', ''jobLocation'', ''type''],
         JStr (get_or extracted_data ''LOCATION_TYPE'' ''OPEN'')),
      ([''jobProfile'', ''coreDetails'', ''jobLocation'', ''applicantLocationRequirement''],
         JStr (get_or extracted_data ''LOCATION_REQUIREMENT'' ''OPEN''))]
     @ (if present extracted_data ''KEY_OBJECTIVES''
        then [([''jobProfile'', ''responsibilities'', ''keyObjectives''],
               JList (map objective (pipe_items (get_or extracted_data ''KEY_OBJECTIVES'' []))))]
        else [])
     @ list_field extracted_data ''DAY_TO_DAY_DUTIES''
         [''jobProfile'', ''responsibilities'', ''dayToDayDuties'']
     @ list_field extracted_data ''TECHNICAL_SKILLS''
         [''jobProfile'', ''qualifications'', ''skills'', ''technical'']
     @ list_field extracted_data ''SOFT_SKILLS''
         [''jobProfile'', ''qualifications'', ''skills'', ''soft'']
     @ [([''jobProfile'', ''qualifications'', ''experience'', ''requiredYears''],
           (let years_str = get_or extracted_data ''REQUIRED_YEARS'' ''0'' in
            case re_search (Group 1 (Plus digit)) years_str of
              Some years_match \<Rightarrow> JInt (digits_value (group years_str years_match 1))
            | None \<Rightarrow> JInt 0)),
         ([''jobProfile'', ''qualifications'', ''experience'', ''description''],
           JStr (get_or extracted_data ''EXPERIENCE_DESCRIPTION'' ''OPEN'')),
         ([''jobProfile'', ''qualifications'', ''education'', ''requiredCredential''],
           JStr (get_or extracted_data ''EDUCATION_REQUIRED'' ''OPEN'')),
         ([''jobProfile'', ''qualifications'', ''education'', ''acceptsExperienceInLieu''],
           JBool (lower (get_or extracted_data ''ACCEPTS_EXPERIENCE_IN_LIEU'' ''false'') = ''true'')),
         ([''jobProfile'', ''companyContext'', ''culture''],
           JStr (get_or extracted_data ''COMPANY_CULTURE'' ''OPEN'')),
         ([''jobProfile'', ''companyContext'', ''growthOpportunities''],
           JStr (get_or extracted_data ''GROWTH_OPPORTUNITIES'' ''OPEN''))]
     @ (case (py_int (get_or extracted_data ''SALARY_MIN'' ''0''),
              py_int (get_or extracted_data ''SALARY_MAX'' ''0'')) of
          (Some min_salary, Some max_salary) \<Rightarrow>
            [([''jobProfile'', ''compensation'', ''salary'', ''min''], JInt min_salary),
             ([''jobProfile'', ''compensation'', ''salary'', ''max''], JInt max_salary)]
        | _ \<Rightarrow>
            [([''jobProfile'', ''compensation'', ''salary'', ''min''], JInt 0),
             ([''jobProfile'', ''compensation'', ''salary'', ''max''], JInt 0)])
     @ [([''jobProfile'', ''compensation'', ''salary'', ''currency''],
           JStr (get_or extracted_data ''CURRENCY'' ''USD''))]
     @ list_field extracted_data ''BENEFITS'' [''jobProfile'', ''compensation'', ''benefits'']
     @ list_field extracted_data ''COMPETENCY_PROFILE''
         [''jobProfile'', ''interviewGuidance'', ''competencyProfile'']
     @ list_field extracted_data ''ASSESSMENT_PLAN''
         [''jobProfile'', ''interviewGuidance'', ''assessmentPlan'']
     @ [([''jobProfile'', ''meta'', ''lastUpdated''], JStr now)]"

text \<open>
  \<open>fill_json_template\<close>: the template is the dictionary at address \<open>template\<close>; the result
  is the address of the copy and the heap after the assignments.
\<close>

definition fill_json_template ::
  "heap \<Rightarrow> nat \<Rightarrow> (string \<times> string) list \<Rightarrow> string \<Rightarrow> string \<Rightarrow> py_error + (nat \<times> heap)" where
  "fill_json_template h template extracted_data job_id now =
     (case alloc (h ! template) h of
        (filled_template, h1) \<Rightarrow>
          (case assign_all h1 (HRef filled_template) (assignments extracted_data job_id now) of
             Inl e \<Rightarrow> Inl e
           | Inr h2 \<Rightarrow> Inr (filled_template, h2)))"

definition template0 :: json where
  \<comment> \<open>a template with the sections the fill writes to\<close>
  "template0 =
     JDict [(''jobProfile'', JDict
       [(''JobId'', JStr ''''),
        (''coreDetails'', JDict
          [(''title'', JStr ''''), (''jobSummary'', JStr ''''),
           (''employmentType'', JDict
              [(''agreement'', JStr ''''), (''schedule'', JStr ''''), (''term'', JStr '''')]),
           (''jobLocation'', JDict
              [(''type'', JStr ''''), (''applicantLocationRequirement'', JStr '''')])]),
        (''responsibilities'', JDict
          [(''keyObjectives'', JList []), (''dayToDayDuties'', JList [])]),
        (''qualifications'', JDict
          [(''skills'', JDict [(''technical'', JList []), (''soft'', JList [])]),
           (''experience'', JDict [(''requiredYears'', JInt 0), (''description'', JStr '''')]),
           (''education'', JDict
              [(''requiredCredential'', JStr ''''), (''acceptsExperienceInLieu'', JBool False)])]),
        (''companyContext'', JDict [(''culture'', JStr ''''), (''growthOpportunities'', JStr '''')]),
        (''compensation'', JDict
          [(''salary'', JDict [(''min'', JInt 0), (''max'', JInt 0), (''currency'', JStr '''')]),
           (''benefits'', JList [])]),
        (''interviewGuidance'', JDict
          [(''competencyProfile'', JList []), (''assessmentPlan'', JList [])]),
        (''meta'', JDict [(''lastUpdated'', JStr ''''), (''source'', JStr '''')])])]"

fun leaf_at :: "json \<Rightarrow> string list \<Rightarrow> json option" where
  \<comment> \<open>the value at a path of keys\<close>
  "leaf_at v [] = Some v"
| "leaf_at (JDict kvs) (key # keys) =
     (case map_of kvs key of Some v \<Rightarrow> leaf_at v keys | None \<Rightarrow> None)"
| "leaf_at v (key # keys) = None"

section \<open>Job transformer v1.2: filling the template\<close>

text \<open>
  \<open>intelligently_fill_template\<close> works on \<open>json.loads(json.dumps(template))\<close>, a fresh tree
  that shares nothing with the caller's template, and returns it. The model is therefore
  a function from the template tree to the filled tree; an exception is \<open>Inl\<close>.
\<close>

definition default_string :: string where
  "default_string = ''OPEN''"

definition default_number :: int where
  "default_number = 0"

fun is_zero_number :: "json \<Rightarrow> bool" where
  \<comment> \<open>\<open>isinstance(value, (int, float)) and value == 0\<close>; a \<open>bool\<close> is an \<open>int\<close> in Python\<close>
  "is_zero_number (JInt n) = (n = 0)"
| "is_zero_number (JFloat r) = (r = 0)"
| "is_zero_number (JBool b) = (\<not> b)"
| "is_zero_number v = False"

text \<open>
  \<open>fill_template_recursively\<close>, the pass of \<open>_ensure_complete_template_structure\<close>. The
  loop over the items of a dictionary rewrites the entries one after the other:
  \<open>fill_entries\<close> holds the entries already rewritten and those still to come, which
  together are the dictionary \<open>obj\<close> that \<open>str(obj)\<close> prints (\<open>repr\<close> is that text).
\<close>

function fill_template_recursively :: "(json \<Rightarrow> string) \<Rightarrow> json \<Rightarrow> json"
  and fill_entries ::
    "(json \<Rightarrow> string) \<Rightarrow> (string \<times> json) list \<Rightarrow> (string \<times> json) list \<Rightarrow> (string \<times> json) list"
  and fill_items :: "(json \<Rightarrow> string) \<Rightarrow> json list \<Rightarrow> json list" where
  "fill_template_recursively repr (JDict kvs) = JDict (fill_entries repr [] kvs)"
| "fill_template_recursively repr (JList items) = JList (fill_items repr items)"
| "fill_template_recursively repr JNull = JNull"
| "fill_template_recursively repr (JBool b) = JBool b"
| "fill_template_recursively repr (JInt n) = JInt n"
| "fill_template_recursively repr (JFloat r) = JFloat r"
| "fill_template_recursively repr (JStr s) = JStr s"
| "fill_entries repr finished [] = finished"
| "fill_entries repr finished ((key, value) # rest) =
     fill_entries repr
       (finished @
          [(key,
            (case value of
               JDict d \<Rightarrow> fill_template_recursively repr (JDict d)
             | JList items \<Rightarrow>
                 if items = [] then JList [] else JList (fill_items repr items)
             | JStr s \<Rightarrow> if s = [] then JStr default_string else JStr s
             | v \<Rightarrow>
                 if is_zero_number v \<and> key \<noteq> ''requiredYears'' then
                   (if (key = ''min'' \<or> key = ''max'')
                       \<and> contains ''salary'' (repr (JDict (finished @ (key, value) # rest)))
                    then JInt 0
                    else if key = ''durationMinutes'' then JInt 0
                    else JInt default_number)
                 else v))])
       rest"
| "fill_items repr [] = []"
| "fill_items repr (item # items) =
     (case item of
        JDict d \<Rightarrow> fill_template_recursively repr (JDict d)
      | _ \<Rightarrow> item) # fill_items repr items"
  by pat_completeness auto
termination
  by (relation "measure (\<lambda>x. case x of
          Inl (repr, v) \<Rightarrow> 2 * size v
        | Inr (Inl (repr, finished, kvs)) \<Rightarrow> 2 * size_list (size_prod (\<lambda>k. 0) size) kvs + 1
        | Inr (Inr (repr, items)) \<Rightarrow> 2 * size_list size items + 1)") auto

definition ensure_complete_template_structure :: "(json \<Rightarrow> string) \<Rightarrow> json \<Rightarrow> json" where
  "ensure_complete_template_structure repr template = fill_template_recursively repr template"

text \<open>What the pass leaves in the place of the value of an entry.\<close>

definition completed_value :: "(json \<Rightarrow> string) \<Rightarrow> string \<Rightarrow> json \<Rightarrow> json" where
  "completed_value repr key value =
     (case value of
        JDict d \<Rightarrow> fill_template_recursively repr (JDict d)
      | JList items \<Rightarrow> if items = [] then JList [] else JList (fill_items repr items)
      | JStr s \<Rightarrow> if s = [] then JStr ''OPEN'' else JStr s
      | v \<Rightarrow> if is_zero_number v \<and> key \<noteq> ''requiredYears'' then JInt 0 else v)"

text \<open>The paths of keys that lead through the dictionaries of a tree to a leaf.\<close>

fun leaf_paths :: "json \<Rightarrow> string list set" where
  "leaf_paths (JDict kvs) = (\<Union>kv \<in> set kvs. (\<lambda>p. fst kv # p) ` leaf_paths (snd kv))"
| "leaf_paths v = {[]}"

text \<open>\<open>a == b\<close> on JSON values: numbers and booleans compare by value.\<close>

fun number_of :: "json \<Rightarrow> rat option" where
  "number_of (JBool b) = Some (if b then 1 else 0)"
| "number_of (JInt n) = Some (of_int n)"
| "number_of (JFloat r) = Some r"
| "number_of v = None"

fun py_eq :: "json \<Rightarrow> json \<Rightarrow> bool"
  and py_eq_list :: "json list \<Rightarrow> json list \<Rightarrow> bool"
  and py_sub_dict :: "(string \<times> json) list \<Rightarrow> (string \<times> json) list \<Rightarrow> bool" where
  "py_eq JNull b = (b = JNull)"
| "py_eq (JBool x) b = (number_of b = Some (if x then 1 else 0))"
| "py_eq (JInt n) b = (number_of b = Some (of_int n))"
| "py_eq (JFloat r) b = (number_of b = Some r)"
| "py_eq (JStr s) b = (b = JStr s)"
| "py_eq (JList xs) b = (case b of JList ys \<Rightarrow> py_eq_list xs ys | _ \<Rightarrow> False)"
| "py_eq (JDict d) b =
     (case b of
        JDict e \<Rightarrow> set (map fst d) = set (map fst e) \<and> py_sub_dict d e
      | _ \<Rightarrow> False)"
| "py_eq_list [] ys = (ys = [])"
| "py_eq_list (x # xs) ys = (case ys of [] \<Rightarrow> False | y # ys' \<Rightarrow> py_eq x y \<and> py_eq_list xs ys')"
| "py_sub_dict [] e = True"
| "py_sub_dict (kv # d) e =
     ((case map_of e (fst kv) of Some w \<Rightarrow> py_eq (snd kv) w | None \<Rightarrow> False) \<and> py_sub_dict d e)"

definition field_mappings :: "(string \<times> json) list" where
  \<comment> \<open>the paths of \<open>_initialize_field_mappings\<close> with their \<open>default\<close>, in their order\<close>
  "field_mappings =
     [(''jobProfile.JobId'', JStr ''OPEN''),
      (''jobProfile.coreDetails.title'', JStr ''OPEN''),
      (''jobProfile.coreDetails.jobSummary'', JStr ''OPEN''),
      (''jobProfile.coreDetails.employmentType.agreement'', JStr ''OPEN''),
      (''jobProfile.coreDetails.employmentType.schedule'', JStr ''OPEN''),
      (''jobProfile.coreDetails.employmentType.term'', JStr ''OPEN''),
      (''jobProfile.coreDetails.jobLocation.type'', JStr ''OPEN''),
      (''jobProfile.coreDetails.jobLocation.applicantLocationRequirement'', JStr ''OPEN''),
      (''jobProfile.responsibilities.dayToDayDuties'', JList []),
      (''jobProfile.responsibilities.keyObjectives'', JList []),
      (''jobProfile.qualifications.skills.technical'', JList []),
      (''jobProfile.qualifications.skills.soft'', JList []),
      (''jobProfile.qualifications.experience.requiredYears'', JInt 0),
      (''jobProfile.qualifications.experience.description'', JStr ''OPEN''),
      (''jobProfile.qualifications.education.requiredCredential'', JStr ''OPEN''),
      (''jobProfile.qualifications.education.acceptsExperienceInLieu'', JBool False),
      (''jobProfile.companyContext.culture'', JStr ''OPEN''),
      (''jobProfile.companyContext.growthOpportunities'', JStr ''OPEN''),
      (''jobProfile.compensation.salary.min'', JInt 0),
      (''jobProfile.compensation.salary.max'', JInt 0),
      (''jobProfile.compensation.salary.currency'', JStr ''USD''),
      (''jobProfile.compensation.benefits'', JList [])]"

definition get_nested_value :: "json \<Rightarrow> string \<Rightarrow> json" where
  \<comment> \<open>\<open>None\<close> (here \<open>JNull\<close>) when a key is missing or a value on the way is no dictionary\<close>
  "get_nested_value data path =
     (case leaf_at data (split_on CHR ''.'' path) of Some v \<Rightarrow> v | None \<Rightarrow> JNull)"

fun set_keys :: "json \<Rightarrow> string list \<Rightarrow> json \<Rightarrow> py_error + json" where
  \<comment> \<open>\<open>set_nested_value\<close> on the list of keys: missing dictionaries on the way are created\<close>
  "set_keys current [] v = Inr current"
| "set_keys (JDict kvs) [key] v = Inr (JDict (dict_set kvs key v))"
| "set_keys (JDict kvs) (key # keys) v =
     (case set_keys (case map_of kvs key of Some child \<Rightarrow> child | None \<Rightarrow> JDict []) keys v of
        Inl e \<Rightarrow> Inl e
      | Inr child' \<Rightarrow> Inr (JDict (dict_set kvs key child')))"
| "set_keys current (key # keys) v = Inl TypeError"

definition set_nested_value :: "json \<Rightarrow> string \<Rightarrow> json \<Rightarrow> py_error + json" where
  "set_nested_value data path v = set_keys data (split_on CHR ''.'' path) v"

fun set_items :: "json \<Rightarrow> string list \<Rightarrow> json \<Rightarrow> py_error + json" where
  \<comment> \<open>\<open>data[k1][k2]...[kn] = v\<close>\<close>
  "set_items current [] v = Inr current"
| "set_items (JDict kvs) [key] v = Inr (JDict (dict_set kvs key v))"
| "set_items (JDict kvs) (key # keys) v =
     (case map_of kvs key of
        None \<Rightarrow> Inl KeyError
      | Some child \<Rightarrow>
          (case set_items child keys v of
             Inl e \<Rightarrow> Inl e
           | Inr child' \<Rightarrow> Inr (JDict (dict_set kvs key child'))))"
| "set_items current (key # keys) v = Inl TypeError"

fun set_all :: "json \<Rightarrow> (string \<times> json) list \<Rightarrow> py_error + json" where
  "set_all data [] = Inr data"
| "set_all data (pv # rest) =
     (case set_nested_value data (fst pv) (snd pv) of
        Inl e \<Rightarrow> Inl e
      | Inr data' \<Rightarrow> set_all data' rest)"

text \<open>
  \<open>extract_field_specific_info\<close>: \<open>llama\<close> gives, for a field path, the reply of the
  completion endpoint to the prompt built for that field (the empty text when the call
  fails).
\<close>

definition extract_field_specific_info :: "(string \<Rightarrow> string) \<Rightarrow> string \<Rightarrow> string" where
  "extract_field_specific_info llama field_path =
     (let response = llama field_path in
      if strip response \<noteq> [] then clean_response response field_path else ''OPEN'')"

definition overlay_field :: "(string \<Rightarrow> string) \<Rightarrow> json \<Rightarrow> string \<times> json \<Rightarrow> py_error + json" where
  \<comment> \<open>the body of the loop over \<open>field_mappings\<close>\<close>
  "overlay_field llama filled_template mapping =
     (let field_path = fst mapping; dflt = snd mapping in
      if field_path = ''jobProfile.JobId'' then Inr filled_template
      else
        (let raw_value = extract_field_specific_info llama field_path;
             parsed_value = parse_extracted_value raw_value field_path dflt;
             current_value = get_nested_value filled_template field_path
         in if current_value = JNull
               \<or> (\<not> py_eq parsed_value dflt \<and> \<not> py_eq parsed_value (JStr ''OPEN''))
            then set_nested_value filled_template field_path parsed_value
            else if py_eq parsed_value (JStr ''OPEN'') \<and> \<not> py_eq dflt (JStr ''OPEN'')
            then set_nested_value filled_template field_path dflt
            else Inr filled_template))"

fun overlay_fields :: "(string \<Rightarrow> string) \<Rightarrow> json \<Rightarrow> (string \<times> json) list \<Rightarrow> py_error + json" where
  "overlay_fields llama filled_template [] = Inr filled_template"
| "overlay_fields llama filled_template (mapping # rest) =
     (case overlay_field llama filled_template mapping of
        Inl e \<Rightarrow> Inl e
      | Inr filled' \<Rightarrow> overlay_fields llama filled' rest)"

text \<open>\<open>_fill_special_template_fields\<close>: the reserved fields and the interview flow.\<close>

definition reset_question_value :: "json \<Rightarrow> json" where
  "reset_question_value v =
     (case v of JStr s \<Rightarrow> JStr ''OPEN'' | JList xs \<Rightarrow> JList [JStr ''OPEN''] | _ \<Rightarrow> v)"

definition reset_question :: "json \<Rightarrow> py_error + json" where
  "reset_question question =
     (case question of
        JDict q \<Rightarrow> Inr (JDict (map (\<lambda>kv. (fst kv, reset_question_value (snd kv))) q))
      | _ \<Rightarrow> Inl AttributeError)"

fun reset_questions :: "json list \<Rightarrow> py_error + json list" where
  "reset_questions [] = Inr []"
| "reset_questions (question # rest) =
     (case reset_question question of
        Inl e \<Rightarrow> Inl e
      | Inr q' \<Rightarrow> (case reset_questions rest of Inl e \<Rightarrow> Inl e | Inr qs \<Rightarrow> Inr (q' # qs)))"

definition reset_stage_value :: "string \<Rightarrow> json \<Rightarrow> py_error + json" where
  "reset_stage_value key v =
     (case v of
        JStr s \<Rightarrow> Inr (JStr ''OPEN'')
      | JInt n \<Rightarrow> Inr (JInt 0)
      | JBool b \<Rightarrow> Inr (JInt 0)
      | JList xs \<Rightarrow>
          if key = ''evaluators'' then Inr (JList [JStr ''OPEN''])
          else if key = ''questions'' then
            (case reset_questions xs of Inl e \<Rightarrow> Inl e | Inr qs \<Rightarrow> Inr (JList qs))
          else Inr v
      | _ \<Rightarrow> Inr v)"

fun reset_stage_entries :: "(string \<times> json) list \<Rightarrow> py_error + (string \<times> json) list" where
  "reset_stage_entries [] = Inr []"
| "reset_stage_entries (kv # rest) =
     (case reset_stage_value (fst kv) (snd kv) of
        Inl e \<Rightarrow> Inl e
      | Inr v' \<Rightarrow>
          (case reset_stage_entries rest of Inl e \<Rightarrow> Inl e | Inr kvs \<Rightarrow> Inr ((fst kv, v') # kvs)))"

fun reset_stages :: "json list \<Rightarrow> py_error + json list" where
  "reset_stages [] = Inr []"
| "reset_stages (stage # rest) =
     (case stage of
        JDict d \<Rightarrow>
          (case reset_stage_entries d of
             Inl e \<Rightarrow> Inl e
           | Inr d' \<Rightarrow>
               (case reset_stages rest of Inl e \<Rightarrow> Inl e | Inr ss \<Rightarrow> Inr (JDict d' # ss)))
      | _ \<Rightarrow> Inl AttributeError)"

definition reset_interview_flow :: "json \<Rightarrow> py_error + json" where
  \<comment> \<open>\<open>for stage in interview_flow\<close> on a truthy value: a list gives its stages; the keys
      of a dictionary and the characters of a text have no \<open>keys()\<close>; a number cannot be
      iterated\<close>
  "reset_interview_flow interview_flow =
     (case interview_flow of
        JList stages \<Rightarrow> (case reset_stages stages of Inl e \<Rightarrow> Inl e | Inr ss \<Rightarrow> Inr (JList ss))
      | JDict d \<Rightarrow> Inl AttributeError
      | JStr s \<Rightarrow> Inl AttributeError
      | _ \<Rightarrow> Inl TypeError)"

definition special_fields :: "(string \<times> json) list" where
  "special_fields =
     [(''jobProfile.coreDetails.customTags'', JList []),
      (''jobProfile.responsibilities.customTags'', JList []),
      (''jobProfile.qualifications.customTags'', JList []),
      (''jobProfile.companyContext.customTags'', JList []),
      (''jobProfile.compensation.customTags'', JList []),
      (''jobProfile.interviewGuidance.customTags'', JList []),
      (''jobProfile.coreDetails.extraNotes'', JStr ''OPEN''),
      (''jobProfile.responsibilities.extraNotes'', JStr ''OPEN''),
      (''jobProfile.qualifications.extraNotes'', JStr ''OPEN''),
      (''jobProfile.companyContext.extraNotes'', JStr ''OPEN''),
      (''jobProfile.compensation.extraNotes'', JStr ''OPEN''),
      (''jobProfile.interviewGuidance.extraNotes'', JStr ''OPEN''),
      (''jobProfile.interviewGuidance.assessmentPlan'', JList []),
      (''jobProfile.interviewGuidance.competencyProfile'', JList [])]"

definition custom_fields :: "(string \<times> json) list" where
  "custom_fields =
     [(''jobProfile.meta.customFields.hardwareRequirement'', JStr ''OPEN''),
      (''jobProfile.meta.customFields.timezoneOverlap'', JStr ''OPEN''),
      (''jobProfile.meta.customFields.clearance'', JStr ''OPEN'')]"

definition fill_special_template_fields :: "json \<Rightarrow> py_error + json" where
  "fill_special_template_fields template =
     (case set_all template special_fields of
        Inl e \<Rightarrow> Inl e
      | Inr t1 \<Rightarrow>
          (let interview_flow = get_nested_value t1 ''jobProfile.interviewGuidance.interviewFlow'' in
           case (if truthy interview_flow then
                   (case reset_interview_flow interview_flow of
                      Inl e \<Rightarrow> Inl e
                    | Inr flow' \<Rightarrow>
                        set_nested_value t1 ''jobProfile.interviewGuidance.interviewFlow'' flow')
                 else Inr t1) of
             Inl e \<Rightarrow> Inl e
           | Inr t2 \<Rightarrow> set_all t2 custom_fields))"

definition intelligently_fill_template ::
  "(json \<Rightarrow> string) \<Rightarrow> (string \<Rightarrow> string) \<Rightarrow> string \<Rightarrow> json \<Rightarrow> string \<Rightarrow> py_error + json" where
  "intelligently_fill_template repr llama now template template_id =
     (case set_items template [''jobProfile'', ''JobId''] (JStr template_id) of
        Inl e \<Rightarrow> Inl e
      | Inr f1 \<Rightarrow>
          (case overlay_fields llama (ensure_complete_template_structure repr f1) field_mappings of
             Inl e \<Rightarrow> Inl e
           | Inr f2 \<Rightarrow>
               (case fill_special_template_fields f2 of
                  Inl e \<Rightarrow> Inl e
                | Inr f3 \<Rightarrow>
                    (case set_items f3 [''jobProfile'', ''meta'', ''lastUpdated''] (JStr now) of
                       Inl e \<Rightarrow> Inl e
                     | Inr f4 \<Rightarrow>
                         (case set_items f4 [''jobProfile'', ''meta'', ''source'']
                                 (JStr ''AI-Extracted'') of
                            Inl e \<Rightarrow> Inl e
                          | Inr f5 \<Rightarrow>
                              set_items f5 [''jobProfile'', ''meta'', ''schemaVersion'']
                                (JStr ''v1.1''))))))"

section \<open>Lemmas on strings\<close>

lemma find_str_none: "c \<notin> set s \<Longrightarrow> find_str [c] s = None"
  by (induction s) auto

lemma find_str_first: "c \<notin> set p \<Longrightarrow> find_str [c] (p @ c # s) = Some (length p)"
  by (induction p) auto

lemma find_str_append_none:
  "find_str sub (p @ s) = None \<Longrightarrow> find_str sub s = None"
proof (induction p)
  case Nil
  then show ?case by simp
next
  case (Cons a p)
  then show ?case by (auto split: if_splits)
qed


lemma brace_depth_Nil [simp]: "brace_depth [] = 0" by (simp add: brace_depth_def)
lemma brace_depth_snoc: "brace_depth (xs @ [c]) = brace_depth xs + (if c = CHR ''{'' then 1 else if c = CHR ''}'' then - 1 else 0)"
  by (auto simp: brace_depth_def)

lemma scan_braces_closes:
  assumes "0 < brace_depth pre"
    and "brace_depth (pre @ rest) = 0"
    and "\<forall>k. 0 < k \<and> k < length rest \<longrightarrow> 0 < brace_depth (pre @ take k rest)"
  shows "scan_braces (pre @ rest @ s) (length pre) (brace_depth pre) 0 (rest @ s) = pre @ rest"
  using assms
proof (induction rest arbitrary: pre)
  case Nil
  then show ?case by simp
next
  case (Cons c cs)
  let ?pre = "pre @ [c]"
  show ?case
  proof (cases "cs = []")
    case True
    with Cons.prems have d: "brace_depth (pre @ [c]) = 0" by simp
    with Cons.prems(1) have c: "c = CHR ''}''" and b: "brace_depth pre = 1"
      by (auto simp: brace_depth_snoc split: if_splits)
    show ?thesis using True c b by (simp add: slice_def)
  next
    case False
    have pos: "0 < brace_depth ?pre"
      using Cons.prems(3)[rule_format, of 1] False by (cases cs) auto
    have zero: "brace_depth (?pre @ cs) = 0" using Cons.prems(2) by simp
    have all: "\<forall>k. 0 < k \<and> k < length cs \<longrightarrow> 0 < brace_depth (?pre @ take k cs)"
    proof (intro allI impI)
      fix k assume "0 < k \<and> k < length cs"
      then show "0 < brace_depth (?pre @ take k cs)"
        using Cons.prems(3)[rule_format, of "Suc k"] by simp
    qed
    have IH: "scan_braces (?pre @ cs @ s) (length ?pre) (brace_depth ?pre) 0 (cs @ s) = ?pre @ cs"
      by (rule Cons.IH[OF pos zero all])
    show ?thesis using IH pos Cons.prems(1)
      by (auto simp: brace_depth_snoc split: if_splits)
  qed
qed

lemma extract_first_closes:
  assumes "closes_at_end obj"
  shows "extract_first_complete_json (obj @ s) = obj"
proof -
  from assms obtain cs where obj: "obj = CHR ''{'' # cs"
    by (cases obj) (auto simp: closes_at_end_def)
  have 1: "0 < brace_depth ''{''" by (simp add: brace_depth_def)
  have 2: "brace_depth (''{'' @ cs) = 0" using assms obj by (simp add: closes_at_end_def)
  have 3: "\<forall>k. 0 < k \<and> k < length cs \<longrightarrow> 0 < brace_depth (''{'' @ take k cs)"
  proof (intro allI impI)
    fix k assume "0 < k \<and> k < length cs"
    then have "Suc k \<in> {1 ..< length obj}" using obj by simp
    with assms have "0 < brace_depth (take (Suc k) obj)" unfolding closes_at_end_def by blast
    then show "0 < brace_depth (''{'' @ take k cs)" using obj by simp
  qed
  have "scan_braces (''{'' @ cs @ s) (length ''{'') (brace_depth ''{'') 0 (cs @ s) = ''{'' @ cs"
    by (rule scan_braces_closes[OF 1 2 3])
  then show ?thesis
    using obj by (simp add: extract_first_complete_json_def brace_depth_def)
qed


lemma dropWhile_all: "\<forall>c \<in> set a. P c \<Longrightarrow> dropWhile P (a @ b) = dropWhile P b"
  by (induction a) auto

lemma dropWhile_some: "\<exists>c \<in> set a. \<not> P c \<Longrightarrow> dropWhile P (a @ b) = dropWhile P a @ b"
  by (induction a) auto

lemma closes_at_end_last:
  assumes "closes_at_end obj"
  shows "obj \<noteq> [] \<and> last obj = CHR ''}''"
proof -
  from assms have ne: "obj \<noteq> []" by (auto simp: closes_at_end_def)
  then have split: "obj = butlast obj @ [last obj]" by simp
  have d0: "brace_depth (butlast obj @ [last obj]) = 0"
    using assms split by (simp add: closes_at_end_def)
  have "butlast obj \<noteq> []"
  proof
    assume "butlast obj = []"
    with split have "obj = [last obj]" by simp
    moreover from assms have "prefix ''{'' obj" by (simp add: closes_at_end_def)
    ultimately have "obj = ''{''" by (cases obj) auto
    with assms show False by (simp add: closes_at_end_def brace_depth_def)
  qed
  then have "1 \<le> length (butlast obj)" by (cases "butlast obj") auto
  then have "length obj - 1 \<in> {1 ..< length obj}" using ne by simp
  with assms have "0 < brace_depth (take (length obj - 1) obj)"
    unfolding closes_at_end_def by blast
  then have "0 < brace_depth (butlast obj)" by (simp add: butlast_conv_take)
  with d0 have "last obj = CHR ''}''"
    by (auto simp: brace_depth_snoc split: if_splits)
  with ne show ?thesis by simp
qed

lemma rstrip_keeps:
  assumes "xs \<noteq> []" and "\<not> is_space (last xs)"
  shows "\<exists>s'. rstrip (xs @ s) = xs @ s'"
proof (cases "\<forall>c \<in> set s. is_space c")
  case True
  have "dropWhile is_space (rev xs) = rev xs"
    using assms by (cases "rev xs") (auto simp: last_rev hd_rev)
  then have "rstrip (xs @ s) = xs @ []"
    using True by (simp add: rstrip_def dropWhile_all)
  then show ?thesis by blast
next
  case False
  then have "dropWhile is_space (rev s @ rev xs) = dropWhile is_space (rev s) @ rev xs"
    by (simp add: dropWhile_some)
  then have "rstrip (xs @ s) = xs @ rev (dropWhile is_space (rev s))"
    by (simp add: rstrip_def)
  then show ?thesis by blast
qed

lemma rstrip_head:
  assumes "\<not> is_space x"
  shows "\<exists>ys. rstrip (x # xs) = x # ys"
proof -
  have "dropWhile is_space (rev xs @ [x]) = dropWhile is_space (rev xs) @ [x]"
    using assms by (induction "rev xs" arbitrary: xs) (auto simp: dropWhile_append)
  then show ?thesis by (simp add: rstrip_def)
qed

section \<open>C1: the object located in a reply\<close>

text \<open>
  C1 (as amended). When the prose before the object contains no opening brace, the reply
  holds no \<open>```json\<close> fence marker, and the braces of the object's text (counting those
  inside its string values too) balance for the first time at its final closing brace,
  the extraction step returns exactly the object's text, whatever follows the object.
\<close>

theorem extract_json_content_embedded:
  assumes "CHR ''{'' \<notin> set p"
    and "find_str fence_json (p @ obj @ s) = None"
    and "closes_at_end obj"
  shows "extract_json_content (p @ obj @ s) = Inr obj"
proof -
  from assms(3) obtain cs where obj: "obj = CHR ''{'' # cs"
    by (cases obj) (auto simp: closes_at_end_def)
  have ne: "obj \<noteq> []" using obj by simp
  have nsp: "\<not> is_space (last obj)"
    using closes_at_end_last[OF assms(3)] by (simp add: is_space_def)
  show ?thesis
  proof (cases "\<forall>c \<in> set p. is_space c")
    case True
    then have "lstrip (p @ obj @ s) = obj @ s"
      using obj by (simp add: lstrip_def dropWhile_all is_space_def)
    moreover obtain s' where "rstrip (obj @ s) = obj @ s'"
      using rstrip_keeps[OF ne nsp] by blast
    ultimately have st: "strip (p @ obj @ s) = obj @ s'" by (simp add: strip_def)
    have "prefix ''{'' (strip (p @ obj @ s))" using st obj by simp
    then show ?thesis
      using assms(2) st extract_first_closes[OF assms(3), of s'] ne
      by (simp add: extract_json_content_def)
  next
    case False
    then obtain x ys where dw: "dropWhile is_space p = x # ys" and x: "\<not> is_space x" "x \<in> set p"
      by (metis dropWhile_eq_Nil_conv hd_dropWhile list.exhaust list.sel(1) list.set_intros(1) set_dropWhileD)
    have "lstrip (p @ obj @ s) = x # ys @ obj @ s"
      using False dw by (simp add: lstrip_def dropWhile_some)
    moreover obtain zs where "rstrip (x # ys @ obj @ s) = x # zs"
      using rstrip_head[OF x(1)] by blast
    ultimately have st: "strip (p @ obj @ s) = x # zs" by (simp add: strip_def)
    have "x \<noteq> CHR ''{''" using x(2) assms(1) by auto
    then have np: "\<not> prefix ''{'' (strip (p @ obj @ s))" using st by simp
    have f: "find_str ''{'' (p @ obj @ s) = Some (length p)"
      using find_str_first[OF assms(1), of "cs @ s"] obj by simp
    show ?thesis
      using assms(2) np f extract_first_closes[OF assms(3), of s] ne
      by (simp add: extract_json_content_def)
  qed
qed

theorem extract_json_content_embedded_witness:
  "CHR ''{'' \<notin> set ''Here is the report: '' \<and>
   find_str fence_json
     (''Here is the report: '' @ ''{\"a\": {\"b\": 1}}'' @ '' - note the } in \"x}\"'') = None \<and>
   closes_at_end ''{\"a\": {\"b\": 1}}'' \<and>
   extract_json_content
     (''Here is the report: '' @ ''{\"a\": {\"b\": 1}}'' @ '' - note the } in \"x}\"'')
     = Inr ''{\"a\": {\"b\": 1}}''"
proof -
  have h1: "CHR ''{'' \<notin> set ''Here is the report: ''" by simp
  have h2: "find_str fence_json
     (''Here is the report: '' @ ''{\"a\": {\"b\": 1}}'' @ '' - note the } in \"x}\"'') = None"
    by code_simp
  have h3: "closes_at_end ''{\"a\": {\"b\": 1}}''" by code_simp
  show ?thesis
    using h1 h2 h3 extract_json_content_embedded[OF h1 h2 h3] by simp
qed

text \<open>
  C1 as stated fails when a string value inside the object holds a closing brace: the
  counter does not know about strings, and the scan stops inside the value.
\<close>

theorem extract_json_content_brace_in_string:
  "extract_json_content (''Result: '' @ ''{\"a\": \"}\"}'' @ '' done'') = Inr ''{\"a\": \"}'' \<and>
   extract_json_content (''Result: '' @ ''{\"a\": \"}\"}'' @ '' done'') \<noteq> Inr ''{\"a\": \"}\"}''"
  by code_simp

section \<open>C9: the batch driver\<close>

lemma batch_loop_tally:
  "fst (batch_loop evaluate session_ids results w) =
     results\<lparr>successful_evaluations :=
                successful_evaluations results
                  @ List.map_filter succeeded (outcomes evaluate session_ids w),
              failed_evaluations :=
                failed_evaluations results
                  @ List.map_filter failed (outcomes evaluate session_ids w)\<rparr>"
proof (induction session_ids arbitrary: results w)
  case Nil
  then show ?case by (simp add: List.map_filter_simps)
next
  case (Cons session_id rest)
  show ?case
  proof (cases "evaluate session_id w")
    case (Pair r w')
    then show ?thesis
      by (cases r; cases "projr r") (auto simp: Cons.IH List.map_filter_simps)
  qed
qed

lemma outcomes_length: "length (outcomes evaluate session_ids w) = length session_ids"
  by (induction session_ids arbitrary: w) (auto split: prod.splits)

lemma tally_partition:
  "length (List.map_filter succeeded xs) + length (List.map_filter failed xs) = length xs"
proof (induction xs)
  case Nil
  then show ?case by (simp add: List.map_filter_simps)
next
  case (Cons x xs)
  obtain sid r where x: "x = (sid, r)" by (cases x)
  show ?case using Cons
    by (cases r; cases "projr r") (auto simp: x List.map_filter_simps)
qed

text \<open>
  On a list with at least one identifier the driver returns its tally: every session is
  evaluated once, in order, each lands in exactly one of the two lists according to its
  own outcome, and an exception of one evaluation is counted as a failure of that session.
\<close>

lemma batch_evaluate_sessions_tally:
  assumes "session_ids \<noteq> []"
  shows "\<exists>results. fst (batch_evaluate_sessions evaluate session_ids w) = Inr results \<and>
           successful_evaluations results
             = List.map_filter succeeded (outcomes evaluate session_ids w) \<and>
           failed_evaluations results
             = List.map_filter failed (outcomes evaluate session_ids w) \<and>
           length (successful_evaluations results) + length (failed_evaluations results)
             = length session_ids \<and>
           total_processed results = length session_ids"
proof -
  obtain results w' where run:
    "batch_loop evaluate session_ids
       \<lparr>successful_evaluations = [], failed_evaluations = [],
        total_processed = length session_ids, success_rate = 0\<rparr> w = (results, w')"
    by (cases "batch_loop evaluate session_ids
       \<lparr>successful_evaluations = [], failed_evaluations = [],
        total_processed = length session_ids, success_rate = 0\<rparr> w")
  have res: "results =
      \<lparr>successful_evaluations = List.map_filter succeeded (outcomes evaluate session_ids w),
       failed_evaluations = List.map_filter failed (outcomes evaluate session_ids w),
       total_processed = length session_ids, success_rate = 0\<rparr>"
    using batch_loop_tally[of evaluate session_ids _ w] run
    by (metis (no_types, lifting) append_Nil fst_conv batch_results.simps(1,2) batch_results.update_convs(1,2))
  show ?thesis
    using assms run res tally_partition[of "outcomes evaluate session_ids w"]
    by (simp add: batch_evaluate_sessions_def outcomes_length)
qed

text \<open>
  C9 (the code departs from it). Called with no identifiers, as the command line does for
  a batch file without a non-blank line, the driver does not return a tally: the rate
  divides by the length of the list and raises \<open>ZeroDivisionError\<close>.
\<close>

theorem batch_evaluate_sessions_empty:
  "fst (batch_evaluate_sessions evaluate [] w) = Inl ZeroDivisionError"
  by (simp add: batch_evaluate_sessions_def)

section \<open>C4: writes and their read-back\<close>

text \<open>
  The evaluation module reports a saved report only when the update returned a row and
  the read-back that follows shows the column populated.
\<close>

lemma save_evaluation_report_verified:
  assumes "fst (save_evaluation_report (Some client) session_id evaluation_report db) = True"
  shows "\<exists>check_data db1 update_data db2 verify_data db3.
           select_eq client ''interview_sessions'' ''session_id'' ''session_id'' session_id db
             = (Inr check_data, db1) \<and> check_data \<noteq> [] \<and>
           update_eq client ''interview_sessions'' ''Interview_report'' evaluation_report
               ''session_id'' session_id db1 = (Inr update_data, db2) \<and> update_data \<noteq> [] \<and>
           select_eq client ''interview_sessions'' ''Interview_report'' ''session_id''
               session_id db2 = (Inr verify_data, db3) \<and> verify_data \<noteq> [] \<and>
           truthy (dict_get (hd verify_data) ''Interview_report'')"
  using assms unfolding save_evaluation_report_def
  by (auto split: prod.splits sum.splits if_splits)

text \<open>
  C4 (the code departs from it). The job transformer's \<open>save_initial_json_to_db\<close> has no
  read-back and does not look at the rows the update returned. On a store without the
  template row the update affects no row, the function returns normally with no rows,
  and the column is still absent from the store.
\<close>

theorem save_initial_json_to_db_no_rows:
  "save_initial_json_to_db (Some mem_client) ''t-1'' (JDict [(''jobProfile'', JDict [])])
       [(''job_templates'', [])]
     = (Inr [], [(''job_templates'', [])]) \<and>
   fst (mem_select ''job_templates'' ''initial_json_schema'' ''template_id'' ''t-1''
          [(''job_templates'', [])]) = Inr []"
  by (simp add: save_initial_json_to_db_def mem_client_def mem_update_def mem_select_def
      mem_rows_def)

section \<open>C5: the order of the conversation shapes\<close>

lemma in_keys_iff: "k \<in> fst ` set d \<longleftrightarrow> map_of d k \<noteq> None"
  by (simp add: map_of_eq_None_iff)

lemma first_present_spec: "first_present ks d = spec_resolve ks d"
  unfolding spec_resolve_def
proof (induction ks)
  case Nil
  then show ?case by simp
next
  case (Cons k ks)
  then show ?case
    by (cases "map_of d k") (simp_all add: in_keys_iff)
qed

lemma role_keys_aliases: "role_keys = role_aliases"
  by (simp add: role_keys_def role_aliases_def)

lemma message_keys_aliases: "message_keys = content_aliases"
  by (simp add: message_keys_def content_aliases_def)

lemma conversation_keys_aliases: "conversation_keys = conversation_aliases"
  by (simp add: conversation_keys_def conversation_aliases_def)

lemma standardize_exchange_spec:
  "standardize_exchange conversation e =
     conversation @ (case spec_exchange e of Some x \<Rightarrow> [x] | None \<Rightarrow> [])"
  by (cases e)
     (auto simp: standardize_exchange_def spec_exchange_def first_present_spec dict_set_def
           role_keys_aliases message_keys_aliases
           split: option.splits)

lemma foldl_standardize:
  "foldl standardize_exchange conversation es = conversation @ List.map_filter spec_exchange es"
proof (induction es arbitrary: conversation)
  case Nil
  then show ?case by (simp add: List.map_filter_simps)
next
  case (Cons e es)
  then show ?case
    by (simp add: standardize_exchange_spec List.map_filter_simps split: option.splits)
qed

lemma scan_conversation_keys_spec:
  "scan_conversation_keys ks d [] =
     (case spec_resolve ks d of Some history \<Rightarrow> spec_exchanges history | None \<Rightarrow> [])"
proof (induction ks)
  case Nil
  then show ?case by (simp add: spec_resolve_def)
next
  case (Cons k ks)
  show ?case
  proof (cases "map_of d k")
    case None
    then have "k \<notin> fst ` set d" by (simp add: map_of_eq_None_iff)
    then have "spec_resolve (k # ks) d = spec_resolve ks d" by (simp add: spec_resolve_def)
    then show ?thesis using None Cons by simp
  next
    case (Some v)
    then have "k \<in> fst ` set d" by (metis map_of_eq_None_iff option.distinct(1))
    then have "spec_resolve (k # ks) d = Some v" using Some by (simp add: spec_resolve_def)
    then show ?thesis using Some
      by (cases v) (simp_all add: spec_exchanges_def foldl_standardize)
  qed
qed

lemma foldl_qa_turns:
  "foldl (qa_turns repr) conversation qas =
     conversation @ concat (map (\<lambda>(q, a).
         [JDict [(''role'', JStr ''assistant''), (''content'', JStr (py_str repr q))],
          JDict [(''role'', JStr ''user''), (''content'', JStr (py_str repr a))]]) qas)"
  by (induction qas arbitrary: conversation) (auto simp: qa_turns_def)

lemma first_yield_simps:
  "first_yield [] = []"
  "first_yield (es # rest) = (if es \<noteq> [] then es else first_yield rest)"
  by (simp_all add: first_yield_def)

lemma session_history_code:
  "session_history session_item =
     (case session_item of
        JDict item \<Rightarrow>
          (case map_of item ''session_data'' of
             Some session_data \<Rightarrow>
               (case py_in ''conversation_history'' session_data of
                  Inl e \<Rightarrow> []
                | Inr False \<Rightarrow> []
                | Inr True \<Rightarrow>
                    (case py_getitem session_data ''conversation_history'' of
                       Inl e \<Rightarrow> []
                     | Inr conversation_history \<Rightarrow>
                         (case conversation_history of
                            JList exchanges \<Rightarrow> foldl standardize_exchange [] exchanges
                          | _ \<Rightarrow> [])))
           | None \<Rightarrow> [])
      | _ \<Rightarrow> [])"
proof (cases session_item)
  case (JDict item)
  show ?thesis
  proof (cases "map_of item ''session_data''")
    case None
    then show ?thesis using JDict by (simp add: session_history_def)
  next
    case (Some session_data)
    then show ?thesis using JDict
      by (cases session_data)
         (auto simp: session_history_def spec_exchanges_def foldl_standardize
            split: option.splits json.splits bool.splits)
  qed
qed (simp_all add: session_history_def)

lemma extract_list: "extract_conversation_data repr (JList xs) = spec_shape_a (JList xs)"
proof (cases xs)
  case Nil
  then show ?thesis
    by (simp add: extract_conversation_data_def extract_conversation_body_def spec_shape_a_def)
next
  case (Cons session_item others)
  have "extract_conversation_data repr (JList (session_item # others)) = session_history session_item"
    unfolding session_history_code
    by (auto simp: extract_conversation_data_def extract_conversation_body_def
          split: option.splits json.splits bool.splits sum.splits)
  then show ?thesis using Cons by (simp add: spec_shape_a_def)
qed

lemma extract_dict:
  "extract_conversation_data repr (JDict d) =
     (if spec_shape_b (JDict d) \<noteq> [] then spec_shape_b (JDict d) else spec_shape_c repr (JDict d))"
  by (auto simp: extract_conversation_data_def extract_conversation_body_def spec_shape_b_def
        spec_shape_c_def scan_conversation_keys_spec foldl_qa_turns dict_get_def Let_def
        conversation_keys_aliases
      split: option.splits json.splits)

text \<open>
  C5 (as amended). For every session-information input the code returns what the
  reconstruction returns that tries, in this order, (a) a non-empty list whose first
  element is a session object nesting a \<open>conversation_history\<close> list under
  \<open>session_data\<close>, (b) an object read at the first of the keys \<open>conversation\<close>,
  \<open>chat_history\<close>, \<open>messages\<close>, \<open>qa_pairs\<close>, \<open>dialogue\<close>, \<open>conversation_history\<close> that
  it has, whatever that key holds, (c) parallel \<open>questions\<close> and \<open>answers\<close> arrays zipped
  into alternating assistant and user turns, and stops at the first shape that yields an
  exchange. The role is the first of \<open>role\<close>, \<open>speaker\<close>, \<open>type\<close> and the content the
  first of \<open>message\<close>, \<open>content\<close>, \<open>text\<close>, \<open>response\<close> that an exchange has; an exchange
  lacking one of them is dropped. One input of each shape is evaluated, the last being
  the questions \<open>Q1\<close> and answers \<open>A1\<close> of the specification.
\<close>

theorem extract_conversation_data_reconstructs:
  "extract_conversation_data repr x = spec_reconstruct repr x \<and>
   extract_conversation_data repr
       (JList [JDict [(''session_data'', JDict [(''conversation_history'', JList
          [JDict [(''speaker'', JStr ''assistant''), (''text'', JStr ''Tell me about you'')],
           JDict [(''type'', JStr ''user''), (''content'', JStr ''later''),
                  (''message'', JStr ''I build parsers''), (''role'', JStr ''user'')],
           JDict [(''text'', JStr ''no role here'')]])])]])
     = [JDict [(''role'', JStr ''assistant''), (''content'', JStr ''Tell me about you'')],
        JDict [(''role'', JStr ''user''), (''content'', JStr ''I build parsers'')]] \<and>
   extract_conversation_data repr
       (JDict [(''dialogue'', JList [JDict [(''type'', JStr ''user''), (''response'', JStr ''Hi'')]]),
               (''questions'', JList [JStr ''Q1'']), (''answers'', JList [JStr ''A1''])])
     = [JDict [(''role'', JStr ''user''), (''content'', JStr ''Hi'')]] \<and>
   extract_conversation_data repr
       (JDict [(''questions'', JList [JStr ''Q1'']), (''answers'', JList [JStr ''A1''])])
     = [JDict [(''role'', JStr ''assistant''), (''content'', JStr ''Q1'')],
        JDict [(''role'', JStr ''user''), (''content'', JStr ''A1'')]]"
proof (intro conjI)
  show "extract_conversation_data repr x = spec_reconstruct repr x"
  proof (cases x)
    case (JList xs)
    then show ?thesis
      by (simp add: extract_list spec_reconstruct_def spec_shape_b_def spec_shape_c_def
            first_yield_simps)
  next
    case (JDict d)
    then show ?thesis
      by (simp add: extract_dict spec_reconstruct_def spec_shape_a_def first_yield_simps)
  qed (simp_all add: extract_conversation_data_def extract_conversation_body_def
         spec_reconstruct_def spec_shape_a_def spec_shape_b_def spec_shape_c_def
         first_yield_simps)
next
  show "extract_conversation_data repr
       (JList [JDict [(''session_data'', JDict [(''conversation_history'', JList
          [JDict [(''speaker'', JStr ''assistant''), (''text'', JStr ''Tell me about you'')],
           JDict [(''type'', JStr ''user''), (''content'', JStr ''later''),
                  (''message'', JStr ''I build parsers''), (''role'', JStr ''user'')],
           JDict [(''text'', JStr ''no role here'')]])])]])
     = [JDict [(''role'', JStr ''assistant''), (''content'', JStr ''Tell me about you'')],
        JDict [(''role'', JStr ''user''), (''content'', JStr ''I build parsers'')]]"
    by (simp add: extract_conversation_data_def extract_conversation_body_def
          standardize_exchange_def role_keys_def message_keys_def dict_set_def)
next
  show "extract_conversation_data repr
       (JDict [(''dialogue'', JList [JDict [(''type'', JStr ''user''), (''response'', JStr ''Hi'')]]),
               (''questions'', JList [JStr ''Q1'']), (''answers'', JList [JStr ''A1''])])
     = [JDict [(''role'', JStr ''user''), (''content'', JStr ''Hi'')]]"
    by (simp add: extract_conversation_data_def extract_conversation_body_def
          conversation_keys_def standardize_exchange_def role_keys_def message_keys_def
          dict_set_def)
next
  show "extract_conversation_data repr
       (JDict [(''questions'', JList [JStr ''Q1'']), (''answers'', JList [JStr ''A1''])])
     = [JDict [(''role'', JStr ''assistant''), (''content'', JStr ''Q1'')],
        JDict [(''role'', JStr ''user''), (''content'', JStr ''A1'')]]"
    by (simp add: extract_conversation_data_def extract_conversation_body_def
          conversation_keys_def dict_get_def qa_turns_def py_str_def)
qed

text \<open>
  C5 as stated fails for shape (b). The loop over the conversation keys ends at the first
  key the object has: an object with an empty \<open>conversation\<close> list and a \<open>messages\<close> list
  holding an exchange exposes an aliased key with an exchange under it, and the code
  returns no exchange.
\<close>

theorem extract_conversation_data_first_key_only:
  "stated_reconstruct (\<lambda>v. [])
       (JDict [(''conversation'', JList []),
               (''messages'', JList [JDict [(''role'', JStr ''user''), (''content'', JStr ''hello'')]])])
     = [JDict [(''role'', JStr ''user''), (''content'', JStr ''hello'')]] \<and>
   extract_conversation_data (\<lambda>v. [])
       (JDict [(''conversation'', JList []),
               (''messages'', JList [JDict [(''role'', JStr ''user''), (''content'', JStr ''hello'')]])])
     = []"
  by code_simp

section \<open>C8: cleaning twice\<close>

lemma contains_sublist: "contains t s \<longleftrightarrow> sublist t s"
  unfolding contains_def
proof (induction s)
  case Nil
  then show ?case by simp
next
  case (Cons c cs)
  then show ?case by (auto simp: sublist_Cons_right)
qed

lemma replace_absent: "\<not> contains old s \<Longrightarrow> replace old new s = s"
proof (induction s)
  case Nil
  then show ?case by simp
next
  case (Cons c cs)
  then show ?case by (auto simp: contains_sublist sublist_Cons_right)
qed

lemma replace_char: "replace [a] [b] s = map (\<lambda>c. if c = a then b else c) s"
  by (induction s) auto

lemma replace_newlines:
  "replace [CHR 0x0D] '' '' (replace [CHR 0x0A] '' '' s) = map collapse s"
  by (simp add: replace_char collapse_def)

lemma contains_map:
  assumes "contains t (map f s)"
  shows "\<exists>w. map f w = t \<and> contains w s"
proof -
  from assms obtain a b where "map f s = a @ (t @ b)"
    by (auto simp: contains_sublist sublist_def)
  then have "\<exists>us vs. s = us @ vs \<and> a = map f us \<and> t @ b = map f vs"
    by (simp only: map_eq_append_conv)
  then obtain us vs where s: "s = us @ vs" and vs: "map f vs = t @ b" by auto
  from vs have "\<exists>w b'. vs = w @ b' \<and> t = map f w \<and> b = map f b'"
    by (simp only: map_eq_append_conv)
  then obtain w b' where "vs = w @ b'" "map f w = t" by auto
  with s have "s = us @ w @ b'" by simp
  then have "contains w s" by (auto simp: contains_sublist sublist_def)
  with \<open>map f w = t\<close> show ?thesis by blast
qed

lemma mapst_tuple: "mapst f (pos, rest, caps) = (pos, map f rest, caps)"
  by (simp add: mapst_def)

lemma mapst_simps [simp]:
  "fst (mapst f st) = fst st" "fst (snd (mapst f st)) = map f (fst (snd st))"
  "snd (snd (mapst f st)) = snd (snd st)"
  by (simp_all add: mapst_def)

lemma run_map:
  assumes "list_all (stable_frame f) fs"
  shows "run fs (mapst f st) = map_option (mapst f) (run fs st)"
  using assms
proof (induction fs st rule: run.induct)
  case (2 p fs st)
  obtain pos rest caps where st: "st = (pos, rest, caps)" by (cases st)
  show ?case
  proof (cases rest)
    case Nil
    then show ?thesis using st by (simp add: mapst_tuple)
  next
    case (Cons c cs)
    show ?thesis
    proof (cases "p c")
      case True
      have "run fs (mapst f (pos + 1, cs, caps)) = map_option (mapst f) (run fs (pos + 1, cs, caps))"
        by (rule "2.IH"[of pos "(rest, caps)" rest caps c cs])
           (use st Cons True "2.prems" in simp_all)
      then show ?thesis using st Cons True "2.prems" by (simp add: mapst_tuple)
    next
      case False
      then show ?thesis using st Cons "2.prems" by (simp add: mapst_tuple)
    qed
  qed
next
  case (5 a b fs st)
  have a: "run (Match a # fs) (mapst f st) = map_option (mapst f) (run (Match a # fs) st)"
    using 5 by simp
  show ?case
  proof (cases "run (Match a # fs) st")
    case None
    then show ?thesis using a 5 by simp
  next
    case (Some m)
    then show ?thesis using a by simp
  qed
next
  case (6 r fs st)
  have inner:
    "run (Match r # Shorter (length (fst (snd st))) # Match (Star r) # fs) (mapst f st)
     = map_option (mapst f) (run (Match r # Shorter (length (fst (snd st))) # Match (Star r) # fs) st)"
    using 6 by simp
  show ?case
  proof (cases "run (Match r # Shorter (length (fst (snd st))) # Match (Star r) # fs) st")
    case None
    then show ?thesis using inner 6 by simp
  next
    case (Some m)
    then show ?thesis using inner by simp
  qed
next
  case (7 r fs st)
  have outer: "run fs (mapst f st) = map_option (mapst f) (run fs st)"
    using 7 by simp
  show ?case
  proof (cases "run fs st")
    case None
    then show ?thesis using outer 7 by simp
  next
    case (Some m)
    then show ?thesis using outer by simp
  qed
next
  case (12 n b fs st)
  have "run fs (mapst f (fst st, fst (snd st), (n, b, fst st) # snd (snd st)))
        = map_option (mapst f) (run fs (fst st, fst (snd st), (n, b, fst st) # snd (snd st)))"
    using 12 by simp
  then show ?case by (simp add: mapst_tuple)
qed simp_all

lemma match_here_map:
  assumes "stable_under f r"
  shows "match_here r adv pos (map f rest) = map_option (mapst f) (match_here r adv pos rest)"
proof -
  have "run (if adv then [Match r, Advance pos] else [Match r]) (mapst f (pos, rest, []))
        = map_option (mapst f) (run (if adv then [Match r, Advance pos] else [Match r]) (pos, rest, []))"
    by (rule run_map) (use assms in simp)
  then show ?thesis by (simp add: match_here_def mapst_tuple)
qed

lemma search_from_map:
  assumes "stable_under f r"
  shows "search_from r pos (map f rest) = search_from r pos rest"
proof (induction rest arbitrary: pos)
  case Nil
  have "match_here r False pos (map f []) = map_option (mapst f) (match_here r False pos [])"
    by (rule match_here_map[OF assms])
  then show ?case by (cases "match_here r False pos []") simp_all
next
  case (Cons c cs)
  have "match_here r False pos (map f (c # cs))
        = map_option (mapst f) (match_here r False pos (c # cs))"
    by (rule match_here_map[OF assms])
  then show ?case using Cons
    by (cases "match_here r False pos (c # cs)") simp_all
qed

lemma scan_matches_none:
  "search_from r pos rest = None \<Longrightarrow> scan_matches r pos rest 0 = []"
  by (induction rest arbitrary: pos) (auto split: option.splits)

lemma re_sub_no_match: "re_search r s = None \<Longrightarrow> re_sub r repl s = s"
  by (simp add: re_sub_def re_finditer_def re_search_def scan_matches_none)

lemma stable_trailing_comma: "stable_under collapse trailing_comma"
  by (auto simp: trailing_comma_def chr_def space_def oneof_def collapse_def is_space_def)


lemma collapse_fixed: "collapse (collapse c) = collapse c"
  by (simp add: collapse_def)

lemma collapse_char:
  "x \<noteq> CHR '' '' \<Longrightarrow> x \<noteq> CHR 0x0A \<Longrightarrow> x \<noteq> CHR 0x0D \<Longrightarrow> collapse c = x \<longleftrightarrow> c = x"
  by (auto simp: collapse_def)

lemma collapse_blank:
  "collapse c = CHR '' '' \<longleftrightarrow> c = CHR '' '' \<or> c = CHR 0x0A \<or> c = CHR 0x0D"
  by (auto simp: collapse_def)

lemma collapse_no_break: "collapse c \<noteq> CHR 0x0A" "collapse c \<noteq> CHR 0x0D"
  by (auto simp: collapse_def)

lemma map_eq_5:
  "map f w = [a, b, c, d, e] \<longleftrightarrow>
     (\<exists>a' b' c' d' e'. w = [a', b', c', d', e'] \<and> f a' = a \<and> f b' = b \<and> f c' = c \<and>
        f d' = d \<and> f e' = e)"
  by (auto simp: map_eq_Cons_conv)

lemma map_eq_4:
  "map f w = [a, b, c, d] \<longleftrightarrow>
     (\<exists>a' b' c' d'. w = [a', b', c', d'] \<and> f a' = a \<and> f b' = b \<and> f c' = c \<and> f d' = d)"
  by (auto simp: map_eq_Cons_conv)

lemma absent_collapse:
  assumes "\<And>w. map collapse w = t \<Longrightarrow> \<not> contains w s"
  shows "\<not> contains t (map collapse s)"
  using assms contains_map by blast

lemma free_of_na_tokens_iff:
  "free_of_na_tokens s \<longleftrightarrow>
     \<not> contains ''\"N/A\"'' s \<and>
     \<not> contains [CHR 0x27, CHR ''N'', CHR ''/'', CHR ''A'', CHR 0x27] s \<and>
     \<not> contains '': N/A'' s \<and> \<not> contains '':N/A'' s"
  by (simp add: free_of_na_tokens_def na_tokens_def)

lemma free_of_line_broken_na_iff:
  "free_of_line_broken_na s \<longleftrightarrow>
     \<not> contains [CHR '':'', CHR 0x0A, CHR ''N'', CHR ''/'', CHR ''A''] s \<and>
     \<not> contains [CHR '':'', CHR 0x0D, CHR ''N'', CHR ''/'', CHR ''A''] s"
  by (simp add: free_of_line_broken_na_def line_broken_na_def)

lemma free_collapse:
  assumes "free_of_na_tokens s" and "free_of_line_broken_na s"
  shows "free_of_na_tokens (map collapse s) \<and> free_of_line_broken_na (map collapse s)"
proof -
  note f = assms(1)[unfolded free_of_na_tokens_iff] assms(2)[unfolded free_of_line_broken_na_iff]
  have 1: "\<not> contains ''\"N/A\"'' (map collapse s)"
    by (rule absent_collapse) (use f in \<open>auto simp: map_eq_5 collapse_char\<close>)
  have 2: "\<not> contains [CHR 0x27, CHR ''N'', CHR ''/'', CHR ''A'', CHR 0x27] (map collapse s)"
    by (rule absent_collapse) (use f in \<open>auto simp: map_eq_5 collapse_char\<close>)
  have 3: "\<not> contains '':N/A'' (map collapse s)"
    by (rule absent_collapse) (use f in \<open>auto simp: map_eq_4 collapse_char\<close>)
  have 4: "\<not> contains '': N/A'' (map collapse s)"
    by (rule absent_collapse) (use f in \<open>auto simp: map_eq_5 collapse_char collapse_blank\<close>)
  have 5: "\<not> contains [CHR '':'', CHR 0x0A, CHR ''N'', CHR ''/'', CHR ''A''] (map collapse s)"
    by (rule absent_collapse) (simp add: map_eq_5 collapse_no_break)
  have 6: "\<not> contains [CHR '':'', CHR 0x0D, CHR ''N'', CHR ''/'', CHR ''A''] (map collapse s)"
    by (rule absent_collapse) (simp add: map_eq_5 collapse_no_break)
  show ?thesis
    unfolding free_of_na_tokens_iff free_of_line_broken_na_iff using 1 2 3 4 5 6 by blast
qed

lemma free_of_trailing_commas_collapse:
  "free_of_trailing_commas (map collapse s) = free_of_trailing_commas s"
  by (simp add: free_of_trailing_commas_def re_search_def
        search_from_map[OF stable_trailing_comma])

lemma clean_json_response_free:
  assumes "free_of_na_tokens s" and "free_of_trailing_commas s"
  shows "clean_json_response s = map collapse s"
proof -
  have n: "\<not> contains ''\"N/A\"'' s"
      "\<not> contains [CHR 0x27, CHR ''N'', CHR ''/'', CHR ''A'', CHR 0x27] s"
      "\<not> contains '': N/A'' s" "\<not> contains '':N/A'' s"
    using assms(1) by (simp_all add: free_of_na_tokens_iff)
  have "re_search trailing_comma (map collapse s) = None"
    using assms(2) free_of_trailing_commas_collapse[of s]
    by (simp add: free_of_trailing_commas_def)
  then have "re_sub trailing_comma (\<lambda>s m. group s m 1) (map collapse s) = map collapse s"
    by (rule re_sub_no_match)
  then show ?thesis
    using n by (simp add: clean_json_response_def replace_absent replace_newlines)
qed

text \<open>
  C8 (as amended). On a text free of the N/A tokens, free also of a bare N/A separated
  from its colon by a line break, and free of trailing commas before a closing brace or
  bracket, cleaning twice gives what cleaning once gives.
\<close>

theorem clean_json_response_idempotent:
  assumes "free_of_na_tokens s" and "free_of_line_broken_na s"
    and "free_of_trailing_commas s"
  shows "clean_json_response (clean_json_response s) = clean_json_response s"
proof -
  have 1: "clean_json_response s = map collapse s"
    by (rule clean_json_response_free[OF assms(1,3)])
  have "clean_json_response (map collapse s) = map collapse (map collapse s)"
    using free_collapse[OF assms(1,2)] assms(3)
    by (intro clean_json_response_free) (simp_all add: free_of_trailing_commas_collapse)
  then show ?thesis by (simp add: 1 collapse_fixed)
qed

theorem clean_json_response_idempotent_witness:
  "free_of_na_tokens (''{\"a\": 1,'' @ [CHR 0x0A] @ '' \"b\": [2, 3]}'') \<and>
   free_of_line_broken_na (''{\"a\": 1,'' @ [CHR 0x0A] @ '' \"b\": [2, 3]}'') \<and>
   free_of_trailing_commas (''{\"a\": 1,'' @ [CHR 0x0A] @ '' \"b\": [2, 3]}'') \<and>
   clean_json_response (clean_json_response (''{\"a\": 1,'' @ [CHR 0x0A] @ '' \"b\": [2, 3]}''))
     = clean_json_response (''{\"a\": 1,'' @ [CHR 0x0A] @ '' \"b\": [2, 3]}'') \<and>
   clean_json_response (''{\"a\": 1,'' @ [CHR 0x0A] @ '' \"b\": [2, 3]}'')
     = ''{\"a\": 1,  \"b\": [2, 3]}''"
proof -
  have h1: "free_of_na_tokens (''{\"a\": 1,'' @ [CHR 0x0A] @ '' \"b\": [2, 3]}'')"
    by code_simp
  have h2: "free_of_line_broken_na (''{\"a\": 1,'' @ [CHR 0x0A] @ '' \"b\": [2, 3]}'')"
    by code_simp
  have h3: "free_of_trailing_commas (''{\"a\": 1,'' @ [CHR 0x0A] @ '' \"b\": [2, 3]}'')"
    by code_simp
  have v: "clean_json_response (''{\"a\": 1,'' @ [CHR 0x0A] @ '' \"b\": [2, 3]}'')
     = ''{\"a\": 1,  \"b\": [2, 3]}''"
    by code_simp
  show ?thesis
    using h1 h2 h3 v clean_json_response_idempotent[OF h1 h2 h3] by simp
qed

text \<open>
  C8 as stated fails: the N/A tokens are replaced before the line breaks are turned into
  blanks. A text with a line feed between the colon and \<open>N/A\<close> holds none of the four
  tokens and no trailing comma; the first cleaning makes the token \<open>: N/A\<close> out of it and
  the second cleaning replaces that token.
\<close>

theorem clean_json_response_line_break:
  "free_of_na_tokens (''{\"a\":'' @ [CHR 0x0A] @ ''N/A}'') \<and>
   free_of_trailing_commas (''{\"a\":'' @ [CHR 0x0A] @ ''N/A}'') \<and>
   clean_json_response (''{\"a\":'' @ [CHR 0x0A] @ ''N/A}'') = ''{\"a\": N/A}'' \<and>
   clean_json_response (clean_json_response (''{\"a\":'' @ [CHR 0x0A] @ ''N/A}''))
     = ''{\"a\": null}''"
  by code_simp

section \<open>C6: the field block\<close>

text \<open>
  C6 (the code departs from it). The pattern that removes an echoed prefix asks for no
  separator after \<open>FIELD_NAME\<close>, \<open>Field\<close> or \<open>Key\<close>, and it ignores case: the field
  \<open>KEY_OBJECTIVES\<close>, which the extraction prompt asks the model for and the template
  filler reads, is recorded under the name \<open>_OBJECTIVES\<close>. The example of the claim is
  parsed as the claim says.
\<close>

theorem parse_llama_response_key_objectives:
  "parse_llama_response ''KEY_OBJECTIVES: Ship v2 | Grow the team''
     = [(''_OBJECTIVES'', ''Ship v2 | Grow the team'')] \<and>
   parse_llama_response
       (''TITLE: Senior Engineer'' @ [CHR 0x0A] @ ''SALARY: OPEN'' @ [CHR 0x0A])
     = [(''TITLE'', ''Senior Engineer''), (''SALARY'', ''OPEN'')]"
  by code_simp

section \<open>C3: salaries\<close>











section \<open>C10: replies that mention OPEN\<close>

text \<open>
  C10 (as amended). For every reply whose text, once the surrounding whitespace is
  stripped, is longer than 10 characters and contains \<open>open\<close> in any letter case, the
  cleaner returns the sentinel \<open>OPEN\<close>, whatever the field.
\<close>

theorem clean_response_open:
  assumes "length (strip response) > 10"
    and "contains ''OPEN'' (upper (strip response))"
  shows "clean_response response field_path = ''OPEN''"
proof -
  have "strip response \<noteq> []" using assms(1) by auto
  moreover have "response \<noteq> []" using assms(1) by (auto simp: strip_def lstrip_def rstrip_def)
  ultimately show ?thesis using assms by (simp add: clean_response_def)
qed

theorem clean_response_open_witness:
  "length (strip ''Experience with OpenCV'') > 10 \<and>
   contains ''OPEN'' (upper (strip ''Experience with OpenCV'')) \<and>
   clean_response ''Experience with OpenCV'' ''jobProfile.qualifications.skills.technical''
     = ''OPEN''"
proof -
  have h1: "length (strip ''Experience with OpenCV'') > 10" by code_simp
  have h2: "contains ''OPEN'' (upper (strip ''Experience with OpenCV''))" by code_simp
  show ?thesis
    using h1 h2
      clean_response_open[OF h1 h2, of "''jobProfile.qualifications.skills.technical''"]
    by simp
qed

text \<open>
  C10 as stated fails when the length comes from surrounding whitespace: the length is
  taken after \<open>strip\<close>. A reply of 11 characters, \<open>OpenCV\<close> followed by five newlines,
  contains \<open>open\<close> and is returned as \<open>OpenCV\<close>.
\<close>

theorem clean_response_padded:
  "length (''OpenCV'' @ replicate 5 (CHR 0x0A)) = 11 \<and>
   contains ''OPEN'' (upper (''OpenCV'' @ replicate 5 (CHR 0x0A))) \<and>
   clean_response (''OpenCV'' @ replicate 5 (CHR 0x0A))
       ''jobProfile.qualifications.skills.technical'' = ''OpenCV''"
  by code_simp

section \<open>C2: the leaves of a filled template\<close>

lemma fill_entries_map:
  "fill_entries repr finished kvs =
     finished @ map (\<lambda>kv. (fst kv, completed_value repr (fst kv) (snd kv))) kvs"
proof (induction kvs arbitrary: finished)
  case Nil
  then show ?case by simp
next
  case (Cons kv kvs)
  obtain key "value" where kv: "kv = (key, value)" by (cases kv)
  show ?case
    unfolding kv
    by (cases "value")
       (simp_all add: Cons.IH completed_value_def default_string_def default_number_def)
qed

lemma fill_dict:
  "fill_template_recursively repr (JDict kvs) =
     JDict (map (\<lambda>kv. (fst kv, completed_value repr (fst kv) (snd kv))) kvs)"
  by (simp add: fill_entries_map)

lemma leaf_paths_fill:
  "leaf_paths (fill_template_recursively repr v) = leaf_paths v"
proof (induction v)
  case (JDict kvs)
  have "leaf_paths (completed_value repr (fst kv) (snd kv)) = leaf_paths (snd kv)"
    if "kv \<in> set kvs" for kv
  proof (cases "snd kv")
    case (JDict d)
    have "snd kv \<in> Basic_BNFs.snds kv" by (cases kv) simp
    then have "leaf_paths (fill_template_recursively repr (snd kv)) = leaf_paths (snd kv)"
      using JDict.IH that by blast
    then show ?thesis using JDict by (simp add: completed_value_def del: fill_template_recursively.simps)
  qed (simp_all add: completed_value_def)
  then show ?case by (simp add: fill_dict del: fill_template_recursively.simps)
qed simp_all

lemma map_of_completed:
  "map_of (map (\<lambda>kv. (fst kv, completed_value repr (fst kv) (snd kv))) kvs) key
     = map_option (completed_value repr key) (map_of kvs key)"
  by (induction kvs) auto

lemma completed_value_dict:
  "completed_value repr key (JDict d) = fill_template_recursively repr (JDict d)"
  by (simp add: completed_value_def)

lemma leaf_at_fill:
  "leaf_at v (p @ [key]) = Some x \<Longrightarrow>
   leaf_at (fill_template_recursively repr v) (p @ [key]) = Some (completed_value repr key x)"
proof (induction p arbitrary: v)
  case Nil
  then show ?case
    by (cases v) (auto simp: fill_dict map_of_completed simp del: fill_template_recursively.simps split: option.splits)
next
  case (Cons k p)
  then obtain kvs child where v: "v = JDict kvs" and c: "map_of kvs k = Some child"
    and l: "leaf_at child (p @ [key]) = Some x"
    by (cases v) (auto split: option.splits)
  obtain d where child: "child = JDict d"
    using l by (cases child; cases p) auto
  have "leaf_at (fill_template_recursively repr child) (p @ [key]) = Some (completed_value repr key x)"
    by (rule Cons.IH[OF l])
  moreover have "map_of (map (\<lambda>kv. (fst kv, completed_value repr (fst kv) (snd kv))) kvs) k
      = Some (fill_template_recursively repr child)"
    using c child by (simp only: map_of_completed completed_value_dict option.map)
  ultimately show ?case
    unfolding v fill_dict by simp
qed

text \<open>
  C2 (as amended). For every template object, the structural completion pass of the fill
  returns a tree with exactly the leaf paths of the template: no field is dropped or
  added. In it every string leaf that was empty is \<open>OPEN\<close> and every other string leaf
  keeps its text, every empty list leaf is the empty list, and every integer leaf that
  was zero is zero.
\<close>

theorem ensure_complete_template_structure_leaves:
  "leaf_paths (ensure_complete_template_structure repr (JDict kvs)) = leaf_paths (JDict kvs) \<and>
   (\<forall>p s. leaf_at (JDict kvs) p = Some (JStr s) \<longrightarrow>
      leaf_at (ensure_complete_template_structure repr (JDict kvs)) p
        = Some (JStr (if s = [] then ''OPEN'' else s))) \<and>
   (\<forall>p. leaf_at (JDict kvs) p = Some (JList []) \<longrightarrow>
      leaf_at (ensure_complete_template_structure repr (JDict kvs)) p = Some (JList [])) \<and>
   (\<forall>p. leaf_at (JDict kvs) p = Some (JInt 0) \<longrightarrow>
      leaf_at (ensure_complete_template_structure repr (JDict kvs)) p = Some (JInt 0))"
proof -
  let ?T = "JDict kvs"
  have at: "leaf_at (fill_template_recursively repr ?T) p
              = Some (completed_value repr (last p) x)"
    if "leaf_at ?T p = Some x" and "p \<noteq> []" for p x
  proof -
    have "leaf_at ?T (butlast p @ [last p]) = Some x" using that by simp
    then have "leaf_at (fill_template_recursively repr ?T) (butlast p @ [last p])
                 = Some (completed_value repr (last p) x)"
      by (rule leaf_at_fill)
    then show ?thesis using that(2) by simp
  qed
  have ne: "p \<noteq> []" if "leaf_at ?T p = Some x" and "\<forall>d. x \<noteq> JDict d" for p x
    using that by (cases p) auto
  have 1: "leaf_paths (ensure_complete_template_structure repr ?T) = leaf_paths ?T"
    unfolding ensure_complete_template_structure_def by (rule leaf_paths_fill)
  have 2: "leaf_at (ensure_complete_template_structure repr ?T) p
             = Some (JStr (if s = [] then ''OPEN'' else s))"
    if "leaf_at ?T p = Some (JStr s)" for p s
    using at[OF that ne[OF that]]
    by (simp add: ensure_complete_template_structure_def completed_value_def)
  have 3: "leaf_at (ensure_complete_template_structure repr ?T) p = Some (JList [])"
    if "leaf_at ?T p = Some (JList [])" for p
    using at[OF that ne[OF that]]
    by (simp add: ensure_complete_template_structure_def completed_value_def)
  have 4: "leaf_at (ensure_complete_template_structure repr ?T) p = Some (JInt 0)"
    if "leaf_at ?T p = Some (JInt 0)" for p
    using at[OF that ne[OF that]]
    by (simp add: ensure_complete_template_structure_def completed_value_def)
  show ?thesis using 1 2 3 4 by blast
qed

theorem ensure_complete_template_structure_leaves_witness:
  "leaf_at template0 [''jobProfile'', ''coreDetails'', ''title''] = Some (JStr []) \<and>
   leaf_at (ensure_complete_template_structure (\<lambda>v. []) template0)
       [''jobProfile'', ''coreDetails'', ''title''] = Some (JStr ''OPEN'') \<and>
   leaf_at template0 [''jobProfile'', ''compensation'', ''benefits''] = Some (JList []) \<and>
   leaf_at (ensure_complete_template_structure (\<lambda>v. []) template0)
       [''jobProfile'', ''compensation'', ''benefits''] = Some (JList []) \<and>
   leaf_at template0 [''jobProfile'', ''compensation'', ''salary'', ''min''] = Some (JInt 0) \<and>
   leaf_at (ensure_complete_template_structure (\<lambda>v. []) template0)
       [''jobProfile'', ''compensation'', ''salary'', ''min''] = Some (JInt 0) \<and>
   leaf_paths (ensure_complete_template_structure (\<lambda>v. []) template0) = leaf_paths template0"
proof -
  obtain kvs where t: "template0 = JDict kvs" by (simp add: template0_def)
  have h1: "leaf_at template0 [''jobProfile'', ''coreDetails'', ''title''] = Some (JStr [])"
    by code_simp
  have h2: "leaf_at template0 [''jobProfile'', ''compensation'', ''benefits''] = Some (JList [])"
    by code_simp
  have h3: "leaf_at template0 [''jobProfile'', ''compensation'', ''salary'', ''min''] = Some (JInt 0)"
    by code_simp
  show ?thesis
    using h1 h2 h3 ensure_complete_template_structure_leaves[of "\<lambda>v. []" kvs]
    unfolding t[symmetric] by simp
qed

text \<open>
  C2 as stated fails for the fill as a whole. With an empty extraction (every completion
  call returns the empty text) the fill of a template that has all the sections it
  writes to adds the reserved fields the template lacks, here the tag list of the core
  details, and writes texts other than \<open>OPEN\<close> into string leaves, here the source of
  the metadata.
\<close>

theorem intelligently_fill_template_adds_fields:
  "leaf_at template0 [''jobProfile'', ''coreDetails'', ''customTags''] = None \<and>
   [''jobProfile'', ''coreDetails'', ''customTags''] \<notin> leaf_paths template0 \<and>
   (case intelligently_fill_template (\<lambda>v. []) (\<lambda>field_path. []) ''1700000000'' template0 ''t-1'' of
      Inl e \<Rightarrow> False
    | Inr filled \<Rightarrow>
        [''jobProfile'', ''coreDetails'', ''customTags''] \<in> leaf_paths filled \<and>
        leaf_at filled [''jobProfile'', ''coreDetails'', ''customTags''] = Some (JList []) \<and>
        leaf_at filled [''jobProfile'', ''meta'', ''source''] = Some (JStr ''AI-Extracted'') \<and>
        leaf_at filled [''jobProfile'', ''JobId''] = Some (JStr ''t-1''))"
  by code_simp

section \<open>C7: the caller's template\<close>

text \<open>
  C7 (the code departs from it). \<open>fill_json_template\<close> of the v1.0 job transformers copies
  the top dictionary only. A template is placed in the heap at address 14 and filled with
  an empty extraction: afterwards the tree below the caller's template is no longer the
  template (its title is \<open>OPEN\<close>), it is the tree of the result.
\<close>

theorem fill_json_template_mutates_template:
  "fst (store template0 []) = HRef 14 \<and>
   load 10 (snd (store template0 [])) (HRef 14) = Some template0 \<and>
   (case fill_json_template (snd (store template0 [])) 14 [] ''job-1'' ''1700000000'' of
      Inl e \<Rightarrow> False
    | Inr (filled_template, h) \<Rightarrow>
        filled_template \<noteq> 14 \<and>
        load 10 h (HRef 14) \<noteq> Some template0 \<and>
        map_option (\<lambda>t. leaf_at t [''jobProfile'', ''coreDetails'', ''title''])
            (load 10 h (HRef 14)) = Some (Some (JStr ''OPEN'')) \<and>
        load 10 h (HRef 14) = load 10 h (HRef filled_template))"
  by code_simp

end
